theory Spec2Isabelle
  imports Main "HOL-Library.Sublist" "HOL-Library.List_Lexorder" "HOL-Library.Char_ord"
begin

section \<open>Exceptions\<close>

text \<open>
  The exceptions the modelled code can raise, as values. \<open>ResourceError\<close> is what
  \<open>ResourceResolver.get\<close> raises (the spec's ResourceNotFound condition), \<open>ValueError\<close>
  is what \<open>ApkInfoCache.store\<close> raises (the spec's DuplicateEntry condition),
  \<open>FileNotFoundError\<close> is what \<open>os.stat\<close> raises on a path that names no file,
  \<open>IndexError\<close> is a subscript out of range, \<open>UnboundLocalError\<close> is a read of a
  local variable no branch has assigned, \<open>RegexError\<close> is \<open>re.error\<close>, and
  \<open>ExtractionError\<close> stands for any failure of the external package inspection.
\<close>

datatype error =
    ResourceError
  | ValueError
  | FileNotFoundError
  | IndexError
  | UnboundLocalError
  | RegexError
  | ExtractionError

section \<open>Python values\<close>

text \<open>
  An \<open>Optional[str]\<close> is a \<open>string option\<close>. Python's truth test of such a value
  (\<open>if v:\<close>, \<open>not v\<close>, \<open>v or ''\<close>) is false for \<open>None\<close> and for the empty string.
\<close>

definition truthy :: "string option \<Rightarrow> bool" where
  "truthy v = (case v of None \<Rightarrow> False | Some s \<Rightarrow> s \<noteq> [])"

definition or_empty :: "string option \<Rightarrow> string" where
  "or_empty v = (case v of None \<Rightarrow> [] | Some s \<Rightarrow> s)"

text \<open>
  Python compares tuples by the first position where they differ; when one is a prefix of
  the other the shorter is the smaller.
\<close>

fun tuple_lt :: "'a::linorder list \<Rightarrow> 'a list \<Rightarrow> bool" where
  "tuple_lt [] [] = False"
| "tuple_lt [] (y # ys) = True"
| "tuple_lt (x # xs) [] = False"
| "tuple_lt (x # xs) (y # ys) = (if x = y then tuple_lt xs ys else x < y)"

definition tuple_gt :: "'a::linorder list \<Rightarrow> 'a list \<Rightarrow> bool" where
  "tuple_gt xs ys = tuple_lt ys xs"

section \<open>Version tuples\<close>

text \<open>
  Modelled from the spec: \<open>version_tuple\<close> of \<open>wa.utils.types\<close> is not among the source
  files. Section 4.1 of the specification describes it as splitting a version string into
  dot-delimited parts and coercing numeric segments, so that the comparison of the tuples
  is the ordering of the versions, and as giving the empty sequence on an empty or null
  input. The matchers below take the function as their first argument \<open>vt\<close>; this
  definition is the instance used to evaluate them on version strings.
\<close>

datatype atom = Num nat | Txt string

fun split_on :: "char \<Rightarrow> string \<Rightarrow> string list" where
  "split_on c [] = [[]]"
| "split_on c (x # xs) =
     (if x = c then [] # split_on c xs
      else (case split_on c xs of [] \<Rightarrow> [[x]] | w # ws \<Rightarrow> (x # w) # ws))"

definition is_digit :: "char \<Rightarrow> bool" where
  "is_digit c = (48 \<le> (of_char c :: nat) \<and> (of_char c :: nat) \<le> 57)"

definition decimal :: "string \<Rightarrow> nat" where
  "decimal s = foldl (\<lambda>n c. 10 * n + ((of_char c :: nat) - 48)) 0 s"

definition coerce :: "string \<Rightarrow> atom" where
  "coerce s = (if s \<noteq> [] \<and> list_all is_digit s then Num (decimal s) else Txt s)"

definition version_tuple :: "string option \<Rightarrow> atom list" where
  "version_tuple v =
     (case v of
        None \<Rightarrow> []
      | Some s \<Rightarrow> if s = [] then [] else map coerce (split_on CHR ''.'' s))"

text \<open>
  The atoms are ordered: numbers by value, texts as strings, a number before a text.
\<close>

instantiation atom :: linorder
begin

fun less_eq_atom :: "atom \<Rightarrow> atom \<Rightarrow> bool" where
  "less_eq_atom (Num a) (Num b) = (a \<le> b)"
| "less_eq_atom (Num a) (Txt t) = True"
| "less_eq_atom (Txt s) (Num b) = False"
| "less_eq_atom (Txt s) (Txt t) = (s \<le> t)"

definition less_atom :: "atom \<Rightarrow> atom \<Rightarrow> bool" where
  "less_atom a b = (a \<le> b \<and> \<not> b \<le> a)"

instance
proof
  fix x y z :: atom
  show "(x < y) = (x \<le> y \<and> \<not> y \<le> x)"
    by (simp add: less_atom_def)
  show "x \<le> x"
    by (cases x) simp_all
  show "x \<le> y \<Longrightarrow> y \<le> z \<Longrightarrow> x \<le> z"
    by (cases x; cases y; cases z) auto
  show "x \<le> y \<Longrightarrow> y \<le> x \<Longrightarrow> x = y"
    by (cases x; cases y) auto
  show "x \<le> y \<or> y \<le> x"
    by (cases x; cases y) auto
qed

end

section \<open>Version matchers of \<open>wa.framework.resource\<close>\<close>

text \<open>
  \<open>loose_version_matching\<close>: the length test, then the loop over \<open>range(len(config))\<close>
  that compares the two tuples index by index.
\<close>

fun loose_loop :: "'a list \<Rightarrow> 'a list \<Rightarrow> nat list \<Rightarrow> bool" where
  "loose_loop config_version_tuple apk_version_tuple [] = True"
| "loose_loop config_version_tuple apk_version_tuple (i # is) =
     (if config_version_tuple ! i \<noteq> apk_version_tuple ! i then False
      else loose_loop config_version_tuple apk_version_tuple is)"

definition loose_version_matching ::
  "(string option \<Rightarrow> 'a list) \<Rightarrow> string \<Rightarrow> string option \<Rightarrow> bool" where
  "loose_version_matching vt config_version apk_version =
     (let config_version_tuple = vt (Some config_version);
          apk_version_tuple = vt apk_version
      in if length apk_version_tuple < length config_version_tuple then False
         else loose_loop config_version_tuple apk_version_tuple
                [0..<length config_version_tuple])"

text \<open>
  \<open>range_version_matching\<close>: an apk version that is \<open>None\<close> or empty never matches; a
  bound that is \<open>None\<close> or empty is not checked.
\<close>

definition range_version_matching ::
  "(string option \<Rightarrow> 'a::linorder list) \<Rightarrow> string option \<Rightarrow> string option \<Rightarrow> string option \<Rightarrow> bool" where
  "range_version_matching vt apk_version min_version max_version =
     (if \<not> truthy apk_version then False
      else
        let apk_version_tuple = vt (Some (or_empty apk_version)) in
        if truthy max_version \<and> tuple_gt apk_version_tuple (vt max_version) then False
        else if truthy min_version \<and> tuple_lt apk_version_tuple (vt min_version) then False
        else True)"

section \<open>Paths\<close>

text \<open>
  \<open>str.rfind\<close> for a single character: the highest index at which it occurs, or \<open>-1\<close>.
\<close>

primrec rfind :: "string \<Rightarrow> char \<Rightarrow> int" where
  "rfind [] c = -1"
| "rfind (x # xs) c =
     (let r = rfind xs c in if 0 \<le> r then r + 1 else if x = c then 0 else -1)"

text \<open>
  \<open>os.path.basename\<close> (posixpath): the part after the last slash.
\<close>

definition basename :: "string \<Rightarrow> string" where
  "basename p = drop (nat (rfind p CHR ''/'' + 1)) p"

text \<open>
  \<open>os.path.splitext\<close> (posixpath, through \<open>genericpath._splitext\<close>): the extension
  starts at the last dot, when that dot stands after the last slash and some character
  between the two is not a dot. The \<open>while\<close> loop that skips the leading dots of the file
  name is \<open>skip_leading_dots\<close>.
\<close>

function skip_leading_dots :: "string \<Rightarrow> nat \<Rightarrow> nat \<Rightarrow> string \<times> string" where
  "skip_leading_dots p filenameIndex dotIndex =
     (if filenameIndex < dotIndex then
        (if p ! filenameIndex \<noteq> CHR ''.'' then (take dotIndex p, drop dotIndex p)
         else skip_leading_dots p (Suc filenameIndex) dotIndex)
      else (p, []))"
  by pat_completeness auto
termination
  by (relation "measure (\<lambda>(p, filenameIndex, dotIndex). dotIndex - filenameIndex)") auto

definition splitext :: "string \<Rightarrow> string \<times> string" where
  "splitext p =
     (let sepIndex = rfind p CHR ''/'';
          dotIndex = rfind p CHR ''.''
      in if dotIndex > sepIndex
         then skip_leading_dots p (nat (sepIndex + 1)) (nat dotIndex)
         else (p, []))"

text \<open>
  \<open>str.lower\<close> on the characters of a path: the ASCII capitals are mapped to their small
  letters, every other character is left as it is.
\<close>

definition lower_char :: "char \<Rightarrow> char" where
  "lower_char c =
     (case map_of (zip ''ABCDEFGHIJKLMNOPQRSTUVWXYZ'' ''abcdefghijklmnopqrstuvwxyz'') c of
        Some l \<Rightarrow> l
      | None \<Rightarrow> c)"

definition lower :: "string \<Rightarrow> string" where
  "lower s = map lower_char s"

text \<open>\<open>ApkFile.match_path\<close>.\<close>

definition match_path :: "string \<Rightarrow> bool" where
  "match_path p = (let ext = lower (snd (splitext p)) in ext = ''.apk'')"

text \<open>
  Python's \<open>pattern in filename\<close> on strings: the pattern occurs as a contiguous part.
\<close>

fun is_substring :: "string \<Rightarrow> string \<Rightarrow> bool" where
  "is_substring pat [] = (pat = [])"
| "is_substring pat (c # cs) = (prefix pat (c # cs) \<or> is_substring pat cs)"

section \<open>The priority-ordered source list\<close>

text \<open>
  Modelled from the spec: \<open>prioritylist\<close> of \<open>wa.utils.types\<close> is not among the source
  files. Section 4.5 of the specification describes a container with \<open>add(source, priority)\<close>
  and a forward iteration that yields the sources from the highest to the lowest priority
  and, within one priority value, in the order of insertion. The container is the list of
  the added elements with their priorities, in the order of insertion; the iteration goes
  through the priority values from the highest to the lowest and yields the elements of
  each in that order.
\<close>

type_synonym 'a prioritylist = "('a \<times> int) list"

definition prioritylist :: "'a prioritylist" where
  "prioritylist = []"

definition add :: "'a \<Rightarrow> int \<Rightarrow> 'a prioritylist \<Rightarrow> 'a prioritylist" where
  "add new_element priority pl = pl @ [(new_element, priority)]"

definition priorities :: "'a prioritylist \<Rightarrow> int list" where
  "priorities pl = rev (sort (remdups (map snd pl)))"

definition iter_entries :: "'a prioritylist \<Rightarrow> ('a \<times> int) list" where
  "iter_entries pl = concat (map (\<lambda>p. filter (\<lambda>e. snd e = p) pl) (priorities pl))"

definition iter :: "'a prioritylist \<Rightarrow> 'a list" where
  "iter pl = map fst (iter_entries pl)"

section \<open>The resource resolver\<close>

text \<open>
  A source is a callable from a resource to a path or \<open>None\<close>; \<open>get_object_name\<close> gives it
  a name for the log. The resolver holds the priority list of its sources. The debug
  messages of \<open>get\<close> are its trace: which sources were tried, in which order.
\<close>

record 'r source =
  source_name :: string
  source_call :: "'r \<Rightarrow> string option"

record 'r ResourceResolver =
  sources :: "'r source prioritylist"

datatype log_entry =
    Resolving
  | Trying string
  | Found string string
  | NotFound

text \<open>
  The priorities of \<open>SourcePriority\<close>: \<open>enum\<close> with \<open>start=0\<close> and \<open>step=10\<close> over package,
  remote, lan, local, perferred. \<open>register\<close> takes \<open>local\<close> when no priority is given.
\<close>

definition SourcePriority_package :: int where "SourcePriority_package = 0"
definition SourcePriority_remote :: int where "SourcePriority_remote = 10"
definition SourcePriority_lan :: int where "SourcePriority_lan = 20"
definition SourcePriority_local :: int where "SourcePriority_local = 30"
definition SourcePriority_perferred :: int where "SourcePriority_perferred = 40"

definition ResourceResolver_init :: "'r ResourceResolver" where
  "ResourceResolver_init = \<lparr>sources = prioritylist\<rparr>"

definition register :: "'r source \<Rightarrow> int \<Rightarrow> 'r ResourceResolver \<Rightarrow> 'r ResourceResolver" where
  "register src priority rs = rs\<lparr>sources := add src priority (sources rs)\<rparr>"

text \<open>
  The loop of \<open>get\<close> over the sources: each is called with the resource, and the first
  result that is not \<open>None\<close> is returned at once.
\<close>

fun probe :: "'r \<Rightarrow> 'r source list \<Rightarrow> log_entry list \<times> string option" where
  "probe resource [] = ([], None)"
| "probe resource (src # rest) =
     (case source_call src resource of
        Some result \<Rightarrow>
          ([Trying (source_name src), Found (source_name src) result], Some result)
      | None \<Rightarrow>
          (case probe resource rest of
             (msgs, found) \<Rightarrow> (Trying (source_name src) # msgs, found)))"

definition get ::
  "'r ResourceResolver \<Rightarrow> 'r \<Rightarrow> bool \<Rightarrow> log_entry list \<times> (error + string option)" where
  "get rs resource strict =
     (case probe resource (iter (sources rs)) of
        (msgs, Some result) \<Rightarrow> (Resolving # msgs, Inr (Some result))
      | (msgs, None) \<Rightarrow>
          if strict then (Resolving # msgs, Inl ResourceError)
          else (Resolving # msgs @ [NotFound], Inr None))"

text \<open>Registering a sequence of sources, one \<open>register\<close> call each, in order.\<close>

definition register_all ::
  "('r source \<times> int) list \<Rightarrow> 'r ResourceResolver \<Rightarrow> 'r ResourceResolver" where
  "register_all regs rs = foldl (\<lambda>acc e. register (fst e) (snd e) acc) rs regs"

section \<open>Package metadata and its cache (\<open>wa.utils.android\<close>)\<close>

text \<open>
  \<open>ApkInfo\<close>: the metadata of a package file. The fields \<open>activities\<close> and \<open>methods\<close>
  hold what the properties of these names give, which \<open>to_pod\<close> reads to fill
  \<open>_activities\<close> and \<open>_methods\<close>; \<open>apk_path\<close> is \<open>_apk_path\<close>.
\<close>

record ApkInfo =
  path :: "string option"
  package :: "string option"
  activity :: "string option"
  label :: "string option"
  version_name :: "string option"
  version_code :: "string option"
  native_code :: "string list option"
  permissions :: "string list"
  apk_path :: "string option"
  activities :: "string list"
  methods :: "string list"

text \<open>The serialised form of an \<open>ApkInfo\<close>: one field per key of the dictionary.\<close>

record pod =
  pod_version :: nat
  pod_path :: "string option"
  pod_package :: "string option"
  pod_activity :: "string option"
  pod_label :: "string option"
  pod_version_name :: "string option"
  pod_version_code :: "string option"
  pod_native_code :: "string list option"
  pod_permissions :: "string list"
  pod_apk_path :: "string option"
  pod_activities :: "string list"
  pod_methods :: "string list"

definition pod_serialization_version :: nat where
  "pod_serialization_version = 1"

definition to_pod :: "ApkInfo \<Rightarrow> pod" where
  "to_pod self =
     \<lparr>pod_version = pod_serialization_version,
      pod_path = path self,
      pod_package = package self,
      pod_activity = activity self,
      pod_label = label self,
      pod_version_name = version_name self,
      pod_version_code = version_code self,
      pod_native_code = native_code self,
      pod_permissions = permissions self,
      pod_apk_path = apk_path self,
      pod_activities = activities self,
      pod_methods = methods self\<rparr>"

definition from_pod :: "pod \<Rightarrow> ApkInfo" where
  "from_pod d =
     \<lparr>path = pod_path d,
      package = pod_package d,
      activity = pod_activity d,
      label = pod_label d,
      version_name = pod_version_name d,
      version_code = pod_version_code d,
      native_code = pod_native_code d,
      permissions = pod_permissions d,
      apk_path = pod_apk_path d,
      activities = pod_activities d,
      methods = pod_methods d\<rparr>"

text \<open>
  Modelled from the spec: \<open>read_pod\<close> and \<open>write_pod\<close> of \<open>wa.utils.serializer\<close> and
  \<open>atomic_write_path\<close> of \<open>wa.utils.misc\<close> are not among the source files. Section 6 of the
  specification describes the persisted cache file as a serialised mapping from identity
  key to metadata record, written as a whole. A file of the model carries the result
  \<open>os.stat\<close> gives for it and the table \<open>read_pod\<close> decodes from it; \<open>write_pod\<close> replaces
  the file. The stat result of a file after the \<open>n\<close>-th write is \<open>stat_after_write n\<close>: the
  file system chooses it, and nothing is assumed about it.
\<close>

type_synonym table = "string \<rightharpoonup> pod"

record fsfile =
  fstat :: nat
  fdata :: table

record filesys =
  files :: "string \<rightharpoonup> fsfile"
  writes :: nat
  stat_after_write :: "nat \<Rightarrow> nat"

definition exists_path :: "filesys \<Rightarrow> string \<Rightarrow> bool" where
  "exists_path fs p = (files fs p \<noteq> None)"

definition os_stat :: "filesys \<Rightarrow> string \<Rightarrow> error + nat" where
  "os_stat fs p = (case files fs p of None \<Rightarrow> Inl FileNotFoundError | Some f \<Rightarrow> Inr (fstat f))"

definition read_pod :: "filesys \<Rightarrow> string \<Rightarrow> table" where
  "read_pod fs p = (case files fs p of None \<Rightarrow> Map.empty | Some f \<Rightarrow> fdata f)"

definition write_pod :: "table \<Rightarrow> string \<Rightarrow> filesys \<Rightarrow> filesys" where
  "write_pod t p fs =
     fs\<lparr>files := (files fs)(p \<mapsto> \<lparr>fstat = stat_after_write fs (writes fs), fdata = t\<rparr>),
        writes := Suc (writes fs)\<rparr>"

text \<open>
  \<open>ApkInfoCache\<close>: the path of the persisted file (\<open>self.path\<close>), the stat result seen at
  the last synchronisation, and the table in memory.
\<close>

record ApkInfoCache =
  cache_path :: string
  last_modified :: "nat option"
  cache :: table

definition update_cache :: "ApkInfoCache \<Rightarrow> filesys \<Rightarrow> ApkInfoCache" where
  "update_cache self fs =
     (if \<not> exists_path fs (cache_path self) then self
      else
        (case os_stat fs (cache_path self) of
           Inl e \<Rightarrow> self
         | Inr s \<Rightarrow>
             if last_modified self \<noteq> Some s
             then self\<lparr>cache := read_pod fs (cache_path self), last_modified := Some s\<rparr>
             else self))"

definition ApkInfoCache_init :: "string \<Rightarrow> filesys \<Rightarrow> ApkInfoCache" where
  "ApkInfoCache_init p fs =
     update_cache \<lparr>cache_path = p, last_modified = None, cache = Map.empty\<rparr> fs"

definition store ::
  "ApkInfoCache \<Rightarrow> ApkInfo \<Rightarrow> string \<Rightarrow> bool \<Rightarrow> filesys \<Rightarrow> error + (ApkInfoCache \<times> filesys)" where
  "store self apk_info apk_id overwrite fs =
     (let c = update_cache self fs in
      if cache c apk_id \<noteq> None \<and> \<not> overwrite then Inl ValueError
      else
        let c1 = c\<lparr>cache := (cache c)(apk_id \<mapsto> to_pod apk_info)\<rparr>;
            fs1 = write_pod (cache c1) (cache_path c1) fs
        in (case os_stat fs1 (cache_path c1) of
              Inl e \<Rightarrow> Inl e
            | Inr s \<Rightarrow> Inr (c1\<lparr>last_modified := Some s\<rparr>, fs1)))"

definition get_info :: "ApkInfoCache \<Rightarrow> string \<Rightarrow> filesys \<Rightarrow> ApkInfo option \<times> ApkInfoCache" where
  "get_info self key fs =
     (let c = update_cache self fs;
          d = cache c key;
          info = (case d of Some d' \<Rightarrow> Some (from_pod d') | None \<Rightarrow> None)
      in (info, c))"

text \<open>
  The state \<open>get_cacheable_apk_info\<close> works on: the module's global \<open>apk_info_cache\<close>
  (\<open>None\<close> until the module has created it) and the file system.
\<close>

record world =
  apk_info_cache :: "ApkInfoCache option"
  filesystem :: filesys

text \<open>
  What the code takes from outside the repository: the version tuples (\<open>tuple_of\<close>), the
  inspection of a package file by the constructor \<open>ApkInfo(path)\<close> of the device library
  (\<open>inspect\<close>, which can fail), the text \<open>format\<close> gives for the modification time of a
  stat result (\<open>str_mtime\<close>), and \<open>re.search\<close> (\<open>re_search\<close>: whether the pattern matches
  somewhere in the text, or the error of a pattern that does not compile).
\<close>

record 'a env =
  tuple_of :: "string option \<Rightarrow> 'a list"
  inspect :: "string \<Rightarrow> error + ApkInfo"
  str_mtime :: "nat \<Rightarrow> string"
  re_search :: "string \<Rightarrow> string \<Rightarrow> error + bool"

definition get_cacheable_apk_info ::
  "('a, 'b) env_scheme \<Rightarrow> string option \<Rightarrow> world \<Rightarrow> error + (ApkInfo option \<times> world)" where
  "get_cacheable_apk_info E p w =
     (case p of
        None \<Rightarrow> Inr (None, w)
      | Some pth \<Rightarrow>
          if pth = [] then Inr (None, w)
          else
            (case os_stat (filesystem w) pth of
               Inl e \<Rightarrow> Inl e
             | Inr modified \<Rightarrow>
                 let apk_id = pth @ ''-'' @ str_mtime E modified in
                 (case apk_info_cache w of
                    Some c \<Rightarrow>
                      (case get_info c apk_id (filesystem w) of
                         (Some info, c1) \<Rightarrow> Inr (Some info, w\<lparr>apk_info_cache := Some c1\<rparr>)
                       | (None, c1) \<Rightarrow>
                           (case inspect E pth of
                              Inl e \<Rightarrow> Inl e
                            | Inr info \<Rightarrow>
                                (case store c1 info apk_id True (filesystem w) of
                                   Inl e \<Rightarrow> Inl e
                                 | Inr (c2, fs2) \<Rightarrow>
                                     Inr (Some info,
                                          \<lparr>apk_info_cache = Some c2, filesystem = fs2\<rparr>))))
                  | None \<Rightarrow>
                      (case inspect E pth of
                         Inl e \<Rightarrow> Inl e
                       | Inr info \<Rightarrow> Inl UnboundLocalError))))"

section \<open>The matchers of the package resource\<close>

text \<open>
  Modelled from the spec: \<open>list_or_string\<close> of \<open>wa.utils.types\<close> is not among the source
  files. Section 4.3 of the specification speaks of the elements of the possibly
  single-element requested list: a string stands for the list of that one string, a list
  for itself. The elements of a version list are strings; those of an ABI list can be
  \<open>None\<close>.
\<close>

datatype 'a str_or_list = Str string | Lst "'a list"

definition list_or_string :: "string str_or_list \<Rightarrow> string list" where
  "list_or_string v = (case v of Str s \<Rightarrow> [s] | Lst l \<Rightarrow> l)"

definition list_or_string_abi :: "string option str_or_list \<Rightarrow> string option list" where
  "list_or_string_abi v = (case v of Str s \<Rightarrow> [Some s] | Lst l \<Rightarrow> l)"

text \<open>The truth test of a value that is a string or a list: false when it is empty.\<close>

definition truthy_sl :: "'a str_or_list option \<Rightarrow> bool" where
  "truthy_sl v =
     (case v of None \<Rightarrow> False | Some (Str s) \<Rightarrow> s \<noteq> [] | Some (Lst l) \<Rightarrow> l \<noteq> [])"

text \<open>\<open>abi in info.native_code\<close>, for an element that can be \<open>None\<close>.\<close>

definition abi_in :: "string option \<Rightarrow> string list \<Rightarrow> bool" where
  "abi_in abi nc = (case abi of None \<Rightarrow> False | Some a \<Rightarrow> a \<in> set nc)"

text \<open>The loop of \<open>apk_version_matches\<close> over the requested versions.\<close>

fun version_loop ::
  "(string option \<Rightarrow> 'a list) \<Rightarrow> ApkInfo option \<Rightarrow> string list \<Rightarrow> bool" where
  "version_loop f info [] = False"
| "version_loop f info (v # vs) =
     (case info of
        None \<Rightarrow> version_loop f info vs
      | Some i \<Rightarrow>
          if Some v = version_name i \<or> Some v = version_code i then True
          else if loose_version_matching f v (version_name i) then True
          else version_loop f info vs)"

definition apk_version_matches ::
  "('a, 'b) env_scheme \<Rightarrow> string \<Rightarrow> string str_or_list \<Rightarrow> world \<Rightarrow> error + (bool \<times> world)" where
  "apk_version_matches E p version w =
     (let versions = list_or_string version in
      case get_cacheable_apk_info E (Some p) w of
        Inl e \<Rightarrow> Inl e
      | Inr (info, w1) \<Rightarrow> Inr (version_loop (tuple_of E) info versions, w1))"

definition apk_version_matches_range ::
  "('a::linorder, 'b) env_scheme \<Rightarrow> string \<Rightarrow> string option \<Rightarrow> string option \<Rightarrow> world
     \<Rightarrow> error + (bool \<times> world)" where
  "apk_version_matches_range E p min_version max_version w =
     (case get_cacheable_apk_info E (Some p) w of
        Inl e \<Rightarrow> Inl e
      | Inr (info, w1) \<Rightarrow>
          Inr (range_version_matching (tuple_of E)
                 (case info of Some i \<Rightarrow> version_name i | None \<Rightarrow> Some [])
                 min_version max_version, w1))"

definition file_name_matches ::
  "('a, 'b) env_scheme \<Rightarrow> string \<Rightarrow> string \<Rightarrow> error + bool" where
  "file_name_matches E p pattern =
     (let filename = basename p in
      if is_substring pattern filename then Inr True
      else (case re_search E pattern filename of
              Inl e \<Rightarrow> Inl e
            | Inr found \<Rightarrow> if found then Inr True else Inr False))"

definition uiauto_test_matches ::
  "('a, 'b) env_scheme \<Rightarrow> string \<Rightarrow> bool \<Rightarrow> world \<Rightarrow> error + (bool \<times> world)" where
  "uiauto_test_matches E p uiauto w =
     (case get_cacheable_apk_info E (Some p) w of
        Inl e \<Rightarrow> Inl e
      | Inr (None, w1) \<Rightarrow> Inr (False, w1)
      | Inr (Some info, w1) \<Rightarrow>
          Inr (uiauto = is_substring ''com.arm.wa.uiauto'' (or_empty (package info)), w1))"

definition package_name_matches ::
  "('a, 'b) env_scheme \<Rightarrow> string \<Rightarrow> string \<Rightarrow> world \<Rightarrow> error + (bool \<times> world)" where
  "package_name_matches E p pkg w =
     (case get_cacheable_apk_info E (Some p) w of
        Inl e \<Rightarrow> Inl e
      | Inr (None, w1) \<Rightarrow> Inr (False, w1)
      | Inr (Some info, w1) \<Rightarrow> Inr (package info = Some pkg, w1))"

text \<open>The loop of \<open>apk_abi_matches\<close> over the requested ABIs.\<close>

fun abi_loop :: "string option list \<Rightarrow> string list \<Rightarrow> bool" where
  "abi_loop [] nc = False"
| "abi_loop (abi # rest) nc = (if abi_in abi nc then True else abi_loop rest nc)"

definition apk_abi_matches ::
  "('a, 'b) env_scheme \<Rightarrow> string \<Rightarrow> string option str_or_list \<Rightarrow> bool \<Rightarrow> world
     \<Rightarrow> error + (bool \<times> world)" where
  "apk_abi_matches E p supported_abi exact_abi w =
     (let supported_abis = list_or_string_abi supported_abi in
      case get_cacheable_apk_info E (Some p) w of
        Inl e \<Rightarrow> Inl e
      | Inr (None, w1) \<Rightarrow> Inr (False, w1)
      | Inr (Some info, w1) \<Rightarrow>
          (case native_code info of
             None \<Rightarrow> Inr (True, w1)
           | Some nc \<Rightarrow>
               if nc = [] then Inr (True, w1)
               else if exact_abi then
                 (case supported_abis of
                    [] \<Rightarrow> Inl IndexError
                  | primary # _ \<Rightarrow> Inr (abi_in primary nc, w1))
               else Inr (abi_loop supported_abis nc, w1)))"

section \<open>The package resource\<close>

text \<open>
  \<open>ApkFile\<close>: the attributes its constructor stores. \<open>ApkFile_init\<close> is the resource the
  constructor gives when only the owner is passed: every parameter at its default.
\<close>

record ApkFile =
  variant :: "string option"
  version :: "string str_or_list option"
  max_version :: "string option"
  min_version :: "string option"
  package :: "string option"
  uiauto :: bool
  exact_abi :: bool
  supported_abi :: "string option list option"

definition ApkFile_init :: ApkFile where
  "ApkFile_init =
     \<lparr>variant = None, version = None, max_version = None, min_version = None,
      package = None, uiauto = False, exact_abi = False, supported_abi = None\<rparr>"

definition match ::
  "('a::linorder, 'b) env_scheme \<Rightarrow> ApkFile \<Rightarrow> string \<Rightarrow> world \<Rightarrow> error + (bool \<times> world)" where
  "match E self p w =
     (case uiauto_test_matches E p (uiauto self) w of
        Inl e \<Rightarrow> Inl e
      | Inr (uiauto_matches, w1) \<Rightarrow>
     (case (case version self of
              Some v \<Rightarrow> if truthy_sl (Some v) then apk_version_matches E p v w1
                         else Inr (True, w1)
            | None \<Rightarrow> Inr (True, w1)) of
        Inl e \<Rightarrow> Inl e
      | Inr (version_matches, w2) \<Rightarrow>
     (case (if truthy (max_version self) \<or> truthy (min_version self)
            then apk_version_matches_range E p (min_version self) (max_version self) w2
            else Inr (True, w2)) of
        Inl e \<Rightarrow> Inl e
      | Inr (version_range_matches, w3) \<Rightarrow>
     (case (if truthy (variant self)
            then file_name_matches E p (or_empty (variant self))
            else Inr True) of
        Inl e \<Rightarrow> Inl e
      | Inr name_matches \<Rightarrow>
     (case (if truthy (ApkFile.package self)
            then package_name_matches E p (or_empty (ApkFile.package self)) w3
            else Inr (True, w3)) of
        Inl e \<Rightarrow> Inl e
      | Inr (package_matches, w4) \<Rightarrow>
     (case (case supported_abi self of
              Some l \<Rightarrow> if l \<noteq> [] then apk_abi_matches E p (Lst l) (exact_abi self) w4
                         else Inr (True, w4)
            | None \<Rightarrow> Inr (True, w4)) of
        Inl e \<Rightarrow> Inl e
      | Inr (abi_matches, w5) \<Rightarrow>
          Inr (name_matches \<and> version_matches \<and> version_range_matches \<and> uiauto_matches
               \<and> package_matches \<and> abi_matches, w5)))))))"

text \<open>
  A call of a matcher or of \<open>match\<close> accepts when it returns \<open>True\<close>; a call that raises
  or returns \<open>False\<close> does not.
\<close>

definition accepts :: "error + (bool \<times> world) \<Rightarrow> bool" where
  "accepts r = (case r of Inl e \<Rightarrow> False | Inr (b, w') \<Rightarrow> b)"

section \<open>Example data\<close>

text \<open>
  Three sources as in the example of the specification: \<open>A\<close> and \<open>C\<close> registered at
  priority 10, \<open>B\<close> at priority 20. \<open>A\<close> and \<open>B\<close> know the resource \<open>''apk''\<close>, \<open>C\<close> knows
  nothing.
\<close>

definition src_A :: "string source" where
  "src_A = \<lparr>source_name = ''A'',
            source_call = (\<lambda>r. if r = ''apk'' then Some ''/a/app.apk'' else None)\<rparr>"

definition src_B :: "string source" where
  "src_B = \<lparr>source_name = ''B'',
            source_call = (\<lambda>r. if r = ''apk'' then Some ''/b/app.apk'' else None)\<rparr>"

definition src_C :: "string source" where
  "src_C = \<lparr>source_name = ''C'', source_call = (\<lambda>r. None)\<rparr>"

definition example_regs :: "(string source \<times> int) list" where
  "example_regs = [(src_A, 10), (src_B, 20), (src_C, 10)]"

text \<open>
  A file system with two package files and no cache file yet, the metadata their
  inspection gives, and the state of a process that has just created its cache.
\<close>

definition example_info :: ApkInfo where
  "example_info =
     \<lparr>path = Some ''/pkgs/app.apk'', package = Some ''com.example.app'',
      activity = Some ''.Main'', label = Some ''App'', version_name = Some ''2.5.1'',
      version_code = Some ''251'', native_code = Some [''armeabi-v7a'', ''arm64-v8a''],
      permissions = [],
      apk_path = None, activities = [], methods = []\<rparr>"

definition uitest_info :: ApkInfo where
  "uitest_info =
     \<lparr>path = Some ''/pkgs/uitest.apk'', package = Some ''com.arm.wa.uiauto.app'',
      activity = None, label = None, version_name = Some ''1.0'',
      version_code = Some ''1'', native_code = None, permissions = [],
      apk_path = None, activities = [], methods = []\<rparr>"

definition example_env :: "atom env" where
  "example_env =
     \<lparr>tuple_of = version_tuple,
      inspect = (\<lambda>p. if p = ''/pkgs/app.apk'' then Inr example_info
                     else if p = ''/pkgs/uitest.apk'' then Inr uitest_info
                     else Inl ExtractionError),
      str_mtime = (\<lambda>s. if s = 7 then ''1700000007.0'' else ''1700000008.0''),
      re_search = (\<lambda>pattern text. Inr False)\<rparr>"

definition example_fs :: filesys where
  "example_fs =
     \<lparr>files = [''/pkgs/app.apk'' \<mapsto> \<lparr>fstat = 7, fdata = Map.empty\<rparr>,
               ''/pkgs/uitest.apk'' \<mapsto> \<lparr>fstat = 8, fdata = Map.empty\<rparr>],
      writes = 0,
      stat_after_write = (\<lambda>n. 100 + n)\<rparr>"

definition example_world :: world where
  "example_world =
     \<lparr>apk_info_cache = Some (ApkInfoCache_init ''/cache/apk_info_cache.json'' example_fs),
      filesystem = example_fs\<rparr>"

section \<open>Lemmas\<close>

subsection \<open>Facts about the version matchers\<close>

lemma tuple_lt_is_lexicographic: "tuple_lt xs ys = (xs < ys)"
  by (induction xs ys rule: tuple_lt.induct) auto

lemma loose_loop_upto:
  "n \<le> length cfg \<Longrightarrow> n \<le> length apk \<Longrightarrow>
   loose_loop cfg apk [k..<n] = (drop k (take n cfg) = drop k (take n apk))"
proof (induction "n - k" arbitrary: k)
  case 0
  then show ?case by simp
next
  case (Suc d)
  then have kn: "k < n" by simp
  have step: "loose_loop cfg apk [Suc k..<n] = (drop (Suc k) (take n cfg) = drop (Suc k) (take n apk))"
    using Suc by simp
  have c: "drop k (take n cfg) = cfg ! k # drop (Suc k) (take n cfg)"
    using kn Suc.prems Cons_nth_drop_Suc [of k "take n cfg"] by simp
  have a: "drop k (take n apk) = apk ! k # drop (Suc k) (take n apk)"
    using kn Suc.prems Cons_nth_drop_Suc [of k "take n apk"] by simp
  show ?case
    using kn step c a by (simp add: upt_conv_Cons)
qed

lemma loose_version_matching_prefix:
  "loose_version_matching vt c a = prefix (vt (Some c)) (vt a)"
proof (cases "length (vt a) < length (vt (Some c))")
  case True
  then show ?thesis
    by (auto simp: loose_version_matching_def Let_def dest: prefix_length_le)
next
  case False
  then have "loose_loop (vt (Some c)) (vt a) [0..<length (vt (Some c))]
             = (take (length (vt (Some c))) (vt a) = vt (Some c))"
    using loose_loop_upto [of "length (vt (Some c))" "vt (Some c)" "vt a" 0] by auto
  moreover have "(take (length (vt (Some c))) (vt a) = vt (Some c)) = prefix (vt (Some c)) (vt a)"
    by (metis append_eq_conv_conj prefix_def append_take_drop_id)
  ultimately show ?thesis
    using False by (simp add: loose_version_matching_def Let_def)
qed

subsection \<open>Facts about the cache\<close>

lemma from_pod_to_pod: "from_pod (to_pod i) = i"
  by (simp add: from_pod_def to_pod_def)

lemma update_cache_path: "cache_path (update_cache c fs) = cache_path c"
  by (simp add: update_cache_def exists_path_def os_stat_def split: option.splits)

lemma update_cache_idem: "update_cache (update_cache c fs) fs = update_cache c fs"
  by (simp add: update_cache_def exists_path_def os_stat_def read_pod_def split: option.splits)

lemma store_eq:
  "store c i k ov fs =
     (if cache (update_cache c fs) k \<noteq> None \<and> \<not> ov then Inl ValueError
      else Inr ((update_cache c fs)
                  \<lparr>cache := (cache (update_cache c fs))(k \<mapsto> to_pod i),
                   last_modified := Some (stat_after_write fs (writes fs))\<rparr>,
                write_pod ((cache (update_cache c fs))(k \<mapsto> to_pod i)) (cache_path c) fs))"
  by (simp add: store_def Let_def write_pod_def os_stat_def update_cache_path)

lemma store_props:
  assumes "store c i k ov fs = Inr (c2, fs2)"
  shows "cache c2 k = Some (to_pod i)"
    and "cache_path c2 = cache_path c"
    and "files fs2 (cache_path c) = Some \<lparr>fstat = stat_after_write fs (writes fs), fdata = cache c2\<rparr>"
    and "last_modified c2 = Some (stat_after_write fs (writes fs))"
    and "\<And>q. q \<noteq> cache_path c \<Longrightarrow> files fs2 q = files fs q"
    and "update_cache c2 fs2 = c2"
  using assms
  by (auto simp: store_eq write_pod_def update_cache_path update_cache_def
                 exists_path_def os_stat_def split: if_splits)

lemma store_overwrite_succeeds: "\<exists>c2 fs2. store c i k True fs = Inr (c2, fs2)"
  by (simp add: store_eq)

lemma get_info_eq:
  "get_info c k fs = (map_option from_pod (cache (update_cache c fs) k), update_cache c fs)"
  by (simp add: get_info_def Let_def split: option.splits)

lemma get_cacheable_apk_info_unfold:
  "p \<noteq> [] \<Longrightarrow>
   get_cacheable_apk_info E (Some p) w =
     (case files (filesystem w) p of
        None \<Rightarrow> Inl FileNotFoundError
      | Some f \<Rightarrow>
          (case apk_info_cache w of
             None \<Rightarrow> (case inspect E p of Inl e \<Rightarrow> Inl e | Inr i \<Rightarrow> Inl UnboundLocalError)
           | Some c \<Rightarrow>
               (case cache (update_cache c (filesystem w)) (p @ ''-'' @ str_mtime E (fstat f)) of
                  Some d \<Rightarrow>
                    Inr (Some (from_pod d), w\<lparr>apk_info_cache := Some (update_cache c (filesystem w))\<rparr>)
                | None \<Rightarrow>
                    (case inspect E p of
                       Inl e \<Rightarrow> Inl e
                     | Inr i \<Rightarrow>
                         (case store (update_cache c (filesystem w)) i
                                 (p @ ''-'' @ str_mtime E (fstat f)) True (filesystem w) of
                            Inl e \<Rightarrow> Inl e
                          | Inr (c2, fs2) \<Rightarrow>
                              Inr (Some i, \<lparr>apk_info_cache = Some c2, filesystem = fs2\<rparr>))))))"
  by (simp add: get_cacheable_apk_info_def os_stat_def get_info_eq Let_def
           split: option.splits sum.splits)

lemma get_cacheable_apk_info_again:
  assumes r: "get_cacheable_apk_info E (Some p) w = Inr (info, w1)"
    and np: "\<forall>c. apk_info_cache w = Some c \<longrightarrow> cache_path c \<noteq> p"
  shows "get_cacheable_apk_info E (Some p) w1 = Inr (info, w1)
         \<and> (\<forall>c. apk_info_cache w1 = Some c \<longrightarrow> cache_path c \<noteq> p)"
proof (cases "p = []")
  case True
  with r np show ?thesis by (auto simp: get_cacheable_apk_info_def)
next
  case False
  note u = get_cacheable_apk_info_unfold [OF False]
  from r obtain f where f: "files (filesystem w) p = Some f"
    by (auto simp: u split: option.splits)
  from r f obtain c where c: "apk_info_cache w = Some c"
    by (auto simp: u split: option.splits sum.splits)
  from np c have cp: "cache_path c \<noteq> p" by simp
  let ?k = "p @ ''-'' @ str_mtime E (fstat f)"
  let ?c1 = "update_cache c (filesystem w)"
  show ?thesis
  proof (cases "cache ?c1 ?k")
    case (Some d)
    with r f c have w1: "w1 = w\<lparr>apk_info_cache := Some ?c1\<rparr>" and i: "info = Some (from_pod d)"
      by (auto simp: u)
    show ?thesis
      using f Some cp
      by (simp add: w1 i u update_cache_idem update_cache_path)
  next
    case None
    with r f c obtain i where ins: "inspect E p = Inr i"
      by (auto simp: u split: sum.splits)
    obtain c2 fs2 where st: "store ?c1 i ?k True (filesystem w) = Inr (c2, fs2)"
      using store_overwrite_succeeds by blast
    from r f c None ins st
    have w1: "w1 = \<lparr>apk_info_cache = Some c2, filesystem = fs2\<rparr>" and i: "info = Some i"
      by (auto simp: u)
    note sp = store_props [OF st]
    have f2: "files fs2 p = Some f"
      using sp(5) [of p] cp f by (simp add: update_cache_path)
    show ?thesis
      using f2 sp(1) sp(2) sp(6) cp
      by (simp add: w1 i u from_pod_to_pod update_cache_path)
  qed
qed

subsection \<open>Facts about the matchers\<close>

lemma abi_in_iff_member: "abi_in abi nc = (\<exists>x. abi = Some x \<and> x \<in> set nc)"
  by (cases abi) (simp_all add: abi_in_def)

lemma abi_loop_iff: "abi_loop abis nc = (\<exists>a \<in> set abis. abi_in a nc)"
  by (induction abis) auto

lemma abi_loop_iff_member:
  "abi_loop abis nc = (\<exists>x \<in> set nc. Some x \<in> set abis)"
  by (auto simp: abi_loop_iff abi_in_iff_member)

lemma version_loop_iff:
  "version_loop f info vs =
     (case info of
        None \<Rightarrow> False
      | Some i \<Rightarrow> \<exists>v \<in> set vs. Some v = version_name i \<or> Some v = version_code i
                              \<or> loose_version_matching f v (version_name i))"
  by (induction vs) (auto split: option.splits)

lemma get_cacheable_apk_info_succeeds:
  assumes "p = [] \<or> (files (filesystem w) p \<noteq> None \<and> apk_info_cache w \<noteq> None
                       \<and> (\<exists>i. inspect E p = Inr i))"
  shows "\<exists>info w1. get_cacheable_apk_info E (Some p) w = Inr (info, w1)"
proof (cases "p = []")
  case True
  then show ?thesis by (simp add: get_cacheable_apk_info_def)
next
  case False
  with assms obtain f c i where "files (filesystem w) p = Some f" "apk_info_cache w = Some c"
    "inspect E p = Inr i" by auto
  then show ?thesis
    using False by (auto simp: get_cacheable_apk_info_unfold store_eq split: option.splits)
qed

subsection \<open>Facts about paths\<close>





declare skip_leading_dots.simps [simp del]






subsection \<open>Facts about the source list and the resolver\<close>

lemma sources_register_all: "sources (register_all regs rs) = sources rs @ regs"
proof (induction regs arbitrary: rs)
  case Nil
  then show ?case by (simp add: register_all_def)
next
  case (Cons e regs)
  have "register_all (e # regs) rs = register_all regs (register (fst e) (snd e) rs)"
    by (simp add: register_all_def)
  then show ?case using Cons [of "register (fst e) (snd e) rs"]
    by (simp add: register_def add_def)
qed

lemma sources_registered: "sources (register_all regs ResourceResolver_init) = regs"
  by (simp add: sources_register_all ResourceResolver_init_def prioritylist_def)

lemma priorities_props:
  "sorted_wrt (>) (priorities pl) \<and> set (priorities pl) = snd ` set pl"
proof -
  have "sorted_wrt (<) (sort (remdups (map snd pl)))"
    by (simp add: strict_sorted_iff)
  then have "sorted_wrt (>) (rev (sort (remdups (map snd pl))))"
    by (simp add: sorted_wrt_rev)
  then show ?thesis by (simp add: priorities_def)
qed

lemma tiers_sorted:
  fixes pl :: "('a \<times> int) list"
  shows "sorted_wrt (>) ps \<Longrightarrow>
   sorted_wrt (\<lambda>a b. snd a \<ge> snd b) (concat (map (\<lambda>p. filter (\<lambda>e. snd e = p) pl) ps))"
proof (induction ps)
  case Nil
  then show ?case by simp
next
  case (Cons p ps)
  have "sorted_wrt (\<lambda>a b. snd a \<ge> snd b) (filter (\<lambda>e. snd e = p) pl)"
    by (induction pl) auto
  then show ?case using Cons by (auto simp: sorted_wrt_append)
qed

lemma tiers_filter:
  "distinct ps \<Longrightarrow>
   filter (\<lambda>e. snd e = q) (concat (map (\<lambda>p. filter (\<lambda>e. snd e = p) pl) ps))
     = (if q \<in> set ps then filter (\<lambda>e. snd e = q) pl else [])"
proof (induction ps)
  case Nil
  then show ?case by simp
next
  case (Cons p ps)
  have a: "filter (\<lambda>e. snd e = p \<and> snd e = q) pl
           = (if p = q then filter (\<lambda>e. snd e = q) pl else [])"
    by (auto simp: filter_empty_conv intro: filter_cong)
  show ?case using Cons by (auto simp: a)
qed

lemma iter_entries_sorted: "sorted_wrt (\<lambda>a b. snd a \<ge> snd b) (iter_entries pl)"
  using priorities_props [of pl] by (simp add: iter_entries_def tiers_sorted)

lemma iter_entries_tier:
  "filter (\<lambda>e. snd e = q) (iter_entries pl) = filter (\<lambda>e. snd e = q) pl"
proof -
  have d: "distinct (priorities pl)" by (simp add: priorities_def)
  have "q \<notin> set (priorities pl) \<Longrightarrow> filter (\<lambda>e. snd e = q) pl = []"
    using priorities_props [of pl] by (auto simp: filter_empty_conv)
  then show ?thesis
    using tiers_filter [OF d, of q pl] by (auto simp: iter_entries_def)
qed

lemma iter_entries_set: "set (iter_entries pl) = set pl"
proof -
  have "e \<in> set (iter_entries pl) = (e \<in> set pl)" for e
    using priorities_props [of pl] by (auto simp: iter_entries_def)
  then show ?thesis by blast
qed

lemma probe_none:
  "\<forall>s \<in> set ss. source_call s r = None \<Longrightarrow>
   probe r ss = (map (\<lambda>s. Trying (source_name s)) ss, None)"
  by (induction ss) auto

lemma probe_first:
  "\<forall>b \<in> set before. source_call b r = None \<Longrightarrow> source_call s r = Some pth \<Longrightarrow>
   probe r (before @ s # rest) =
     (map (\<lambda>b. Trying (source_name b)) before @ [Trying (source_name s), Found (source_name s) pth],
      Some pth)"
  by (induction before) auto

lemma first_match_split:
  "\<exists>x \<in> set xs. P x \<Longrightarrow> \<exists>before x rest. xs = before @ x # rest \<and> P x \<and> (\<forall>b \<in> set before. \<not> P b)"
  by (metis split_list_first_prop)

lemma get_first:
  assumes "iter (sources rs) = before @ s # rest" "\<forall>b \<in> set before. source_call b r = None"
    "source_call s r = Some pth"
  shows "get rs r strict =
     (Resolving # map (\<lambda>b. Trying (source_name b)) before
        @ [Trying (source_name s), Found (source_name s) pth], Inr (Some pth))"
  using assms probe_first [of before r s pth rest] by (simp add: get_def)

lemma get_none:
  assumes "\<forall>e \<in> set (sources rs). source_call (fst e) r = None"
  shows "get rs r strict =
     (if strict then (Resolving # map (\<lambda>s. Trying (source_name s)) (iter (sources rs)), Inl ResourceError)
      else (Resolving # map (\<lambda>s. Trying (source_name s)) (iter (sources rs)) @ [NotFound], Inr None))"
proof -
  have "\<forall>s \<in> set (iter (sources rs)). source_call s r = None"
    using assms by (auto simp: iter_def iter_entries_set)
  from probe_none [OF this] show ?thesis by (simp add: get_def)
qed

lemma get_winner:
  assumes m: "\<exists>e \<in> set (sources rs). source_call (fst e) r \<noteq> None"
  shows "\<exists>before s p rest pth.
           iter_entries (sources rs) = before @ (s, p) # rest
         \<and> (\<forall>b \<in> set before. source_call (fst b) r = None)
         \<and> source_call s r = Some pth
         \<and> (\<forall>e \<in> set rest. snd e \<le> p)
         \<and> get rs r strict =
             (Resolving # map (\<lambda>b. Trying (source_name (fst b))) before
                @ [Trying (source_name s), Found (source_name s) pth], Inr (Some pth))"
proof -
  from m have "\<exists>e \<in> set (iter_entries (sources rs)). source_call (fst e) r \<noteq> None"
    by (simp add: iter_entries_set)
  from first_match_split [of "iter_entries (sources rs)" "\<lambda>e. source_call (fst e) r \<noteq> None", OF this]
  obtain before x rest where sp: "iter_entries (sources rs) = before @ x # rest"
    and x: "source_call (fst x) r \<noteq> None" and b: "\<forall>b \<in> set before. source_call (fst b) r = None"
    by auto
  obtain s p where xs: "x = (s, p)" by (cases x)
  from x xs obtain pth where pth: "source_call s r = Some pth" by auto
  have srt: "\<forall>e \<in> set rest. snd e \<le> p"
    using iter_entries_sorted [of "sources rs"] by (auto simp: sp xs sorted_wrt_append)
  have it: "iter (sources rs) = map fst before @ s # map fst rest"
    by (simp add: iter_def sp xs)
  have "get rs r strict =
     (Resolving # map (\<lambda>b. Trying (source_name b)) (map fst before)
        @ [Trying (source_name s), Found (source_name s) pth], Inr (Some pth))"
    using b pth by (intro get_first [OF it]) auto
  then show ?thesis using sp xs b pth srt by (auto simp: o_def)
qed

subsection \<open>Evaluation on the example data\<close>

lemmas vt_eval = version_tuple_def coerce_def is_digit_def decimal_def less_atom_def

lemma prefix_iff_nth:
  "prefix xs ys = (length xs \<le> length ys \<and> (\<forall>i < length xs. xs ! i = ys ! i))"
proof (intro iffI conjI allI impI)
  assume h: "length xs \<le> length ys \<and> (\<forall>i < length xs. xs ! i = ys ! i)"
  then have "take (length xs) ys = xs"
    by (intro nth_equalityI) auto
  then show "prefix xs ys"
    by (metis take_is_prefix)
qed (auto simp: prefix_def nth_append)

lemma range_version_matching_iff:
  fixes vt :: "string option \<Rightarrow> 'a::linorder list"
  shows "range_version_matching vt apk mn mx =
     (truthy apk \<and> (truthy mx \<longrightarrow> vt apk \<le> vt mx) \<and> (truthy mn \<longrightarrow> vt mn \<le> vt apk))"
  by (cases apk)
     (auto simp: range_version_matching_def truthy_def or_empty_def Let_def tuple_gt_def
                 tuple_lt_is_lexicographic)

lemmas world_eval = get_cacheable_apk_info_def os_stat_def get_info_def store_def update_cache_def
  exists_path_def read_pod_def write_pod_def ApkInfoCache_init_def example_world_def
  example_fs_def example_env_def Let_def to_pod_def from_pod_def

lemmas path_eval = match_path_def splitext_def lower_def lower_char_def Let_def
  skip_leading_dots.simps

lemmas resolver_eval = get_def iter_def iter_entries_def priorities_def example_regs_def
  src_A_def src_B_def src_C_def

lemma ApkInfoCache_init_reads:
  "files fs p = Some f \<Longrightarrow>
   ApkInfoCache_init p fs = \<lparr>cache_path = p, last_modified = Some (fstat f), cache = fdata f\<rparr>"
  by (simp add: ApkInfoCache_init_def update_cache_def exists_path_def os_stat_def read_pod_def)

lemmas cache_eval = store_def get_info_def update_cache_def exists_path_def os_stat_def
  read_pod_def write_pod_def ApkInfoCache_init_def Let_def to_pod_def from_pod_def
  example_fs_def

lemmas matcher_eval = apk_abi_matches_def uiauto_test_matches_def package_name_matches_def
  apk_version_matches_def apk_version_matches_range_def file_name_matches_def
  list_or_string_def list_or_string_abi_def abi_in_def or_empty_def truthy_def truthy_sl_def
  accepts_def basename_def example_info_def uitest_info_def

section \<open>Properties of the specification\<close>

text \<open>
  C4. The loose version match fails when the candidate's version tuple has fewer segments
  than the requested one, and otherwise accepts exactly when the first segments, as many
  as the requested tuple has, are pairwise equal: it is the prefix relation on version
  tuples. With the version tuples of the specification, \<open>1.2\<close> loosely matches \<open>1.2.7\<close>
  and \<open>1.2.7\<close> does not loosely match \<open>1.2\<close>.
\<close>

theorem loose_version_matching_is_prefix_relation:
  "(length (vt a) < length (vt (Some c)) \<longrightarrow> \<not> loose_version_matching vt c a)
   \<and> (length (vt (Some c)) \<le> length (vt a) \<longrightarrow>
        loose_version_matching vt c a = (\<forall>i < length (vt (Some c)). vt (Some c) ! i = vt a ! i))
   \<and> loose_version_matching vt c a = prefix (vt (Some c)) (vt a)
   \<and> loose_version_matching version_tuple ''1.2'' (Some ''1.2.7'')
   \<and> \<not> loose_version_matching version_tuple ''1.2.7'' (Some ''1.2'')"
proof -
  note p = loose_version_matching_prefix
  have "loose_version_matching version_tuple ''1.2'' (Some ''1.2.7'')"
    by (simp add: p vt_eval)
  moreover have "\<not> loose_version_matching version_tuple ''1.2.7'' (Some ''1.2'')"
    by (simp add: p vt_eval)
  ultimately show ?thesis
    using prefix_iff_nth [of "vt (Some c)" "vt a"] by (auto simp: p)
qed

theorem loose_version_matching_is_prefix_relation_witness:
  "length (version_tuple (Some ''1.2'')) = 2
   \<and> length (version_tuple (Some ''1.2.7'')) = 3
   \<and> loose_version_matching version_tuple ''1.2'' (Some ''1.2.7'')
   \<and> \<not> loose_version_matching version_tuple ''1.2.7'' (Some ''1.2'')
   \<and> \<not> loose_version_matching version_tuple ''1.3'' (Some ''1.2.7'')"
  using loose_version_matching_is_prefix_relation [of version_tuple "Some ''1.2.7''" "''1.2''"]
        loose_version_matching_is_prefix_relation [of version_tuple "Some ''1.2''" "''1.2.7''"]
        loose_version_matching_is_prefix_relation [of version_tuple "Some ''1.2.7''" "''1.3''"]
  by (simp add: vt_eval less_Suc_eq)

text \<open>
  C5. The range match accepts exactly when the metadata version is not empty, is at most
  \<open>max_version\<close> when that bound is given, and is at least \<open>min_version\<close> when that bound is
  given, the versions compared as tuples in lexicographic order. A metadata version that
  is \<open>None\<close> or empty fails, whatever the bounds, also with none given.
  \<open>apk_version_matches_range\<close> applies this to the version name of the metadata of the
  path, and to the empty version when there is no metadata.
\<close>

theorem range_version_matching_within_bounds:
  fixes vt :: "string option \<Rightarrow> 'a::linorder list"
    and E :: "('a, 'b) env_scheme"
  shows
  "range_version_matching vt apk mn mx =
     (truthy apk \<and> (truthy mx \<longrightarrow> vt apk \<le> vt mx) \<and> (truthy mn \<longrightarrow> vt mn \<le> vt apk))
   \<and> (apk = None \<or> apk = Some [] \<longrightarrow> \<not> range_version_matching vt apk mn mx)
   \<and> (get_cacheable_apk_info E (Some p) w = Inr (Some info, w1) \<longrightarrow>
        apk_version_matches_range E p mn mx w =
          Inr (range_version_matching (tuple_of E) (version_name info) mn mx, w1))
   \<and> (get_cacheable_apk_info E (Some p) w = Inr (None, w1) \<longrightarrow>
        apk_version_matches_range E p mn mx w = Inr (False, w1))"
  by (auto simp: range_version_matching_iff apk_version_matches_range_def truthy_def)

theorem range_version_matching_within_bounds_witness:
  "range_version_matching version_tuple (Some ''2.5.1'') (Some ''2.0'') (Some ''3.0'')
   \<and> \<not> range_version_matching version_tuple (Some ''3.1'') (Some ''2.0'') (Some ''3.0'')
   \<and> \<not> range_version_matching version_tuple (Some ''1.9'') (Some ''2.0'') (Some ''3.0'')
   \<and> \<not> range_version_matching version_tuple (Some []) (Some ''2.0'') (Some ''3.0'')
   \<and> \<not> range_version_matching version_tuple None None None
   \<and> map_sum id fst (apk_version_matches_range example_env ''/pkgs/app.apk''
        (Some ''2.0'') (Some ''3.0'') example_world) = Inr True"
proof -
  obtain w1 where g: "get_cacheable_apk_info example_env (Some ''/pkgs/app.apk'') example_world
                      = Inr (Some example_info, w1)"
    by (simp add: world_eval)
  have t: "tuple_of example_env = version_tuple" "version_name example_info = Some ''2.5.1''"
    by (simp_all add: example_env_def example_info_def)
  show ?thesis
    using range_version_matching_within_bounds
            [of version_tuple "Some ''2.5.1''" "Some ''2.0''" "Some ''3.0''" example_env
                "''/pkgs/app.apk''" example_world example_info w1]
          range_version_matching_within_bounds
            [of version_tuple "Some ''3.1''" "Some ''2.0''" "Some ''3.0''" example_env
                "''/pkgs/app.apk''" example_world example_info w1]
          range_version_matching_within_bounds
            [of version_tuple "Some ''1.9''" "Some ''2.0''" "Some ''3.0''" example_env
                "''/pkgs/app.apk''" example_world example_info w1]
          range_version_matching_within_bounds
            [of version_tuple "Some []" "Some ''2.0''" "Some ''3.0''" example_env
                "''/pkgs/app.apk''" example_world example_info w1]
          range_version_matching_within_bounds
            [of version_tuple None None None example_env
                "''/pkgs/app.apk''" example_world example_info w1]
          g
    by (simp add: t truthy_def vt_eval)
qed


text \<open>
  C1. For every resource and every sequence of registrations, the sources are iterated
  from the highest priority to the lowest, those of one priority in the order of their
  registration; \<open>get\<close> calls them in that order with the resource and returns the first
  path that is not \<open>None\<close>, and its trace shows that it tried the sources before that
  one and no source after it. The path returned always comes from a source whose priority
  is the highest among the sources that match; in particular, when sources registered at
  priorities \<open>p1 > p2\<close> both match and the one at \<open>p1\<close> is the only matching source of
  priority \<open>p1\<close> or higher, the result is its path.
\<close>

theorem get_returns_first_match_in_priority_order:
  fixes regs :: "('r source \<times> int) list"
  shows
  "sorted_wrt (\<lambda>a b. snd a \<ge> snd b) (iter_entries (sources (register_all regs ResourceResolver_init)))
   \<and> (\<forall>q. filter (\<lambda>e. snd e = q) (iter_entries (sources (register_all regs ResourceResolver_init)))
            = filter (\<lambda>e. snd e = q) regs)
   \<and> (\<forall>before s rest pth.
         iter (sources (register_all regs ResourceResolver_init)) = before @ s # rest
         \<and> (\<forall>b \<in> set before. source_call b r = None) \<and> source_call s r = Some pth
         \<longrightarrow> get (register_all regs ResourceResolver_init) r strict =
               (Resolving # map (\<lambda>b. Trying (source_name b)) before
                  @ [Trying (source_name s), Found (source_name s) pth], Inr (Some pth)))
   \<and> (\<forall>pth. snd (get (register_all regs ResourceResolver_init) r strict) = Inr (Some pth)
         \<longrightarrow> (\<exists>e \<in> set regs. source_call (fst e) r = Some pth
                \<and> (\<forall>e' \<in> set regs. source_call (fst e') r \<noteq> None \<longrightarrow> snd e' \<le> snd e)))
   \<and> (\<forall>s1 p1 s2 p2 pth.
         (s1, p1) \<in> set regs \<and> (s2, p2) \<in> set regs \<and> p2 < p1
         \<and> source_call s1 r = Some pth \<and> source_call s2 r \<noteq> None
         \<and> (\<forall>e \<in> set regs. p1 \<le> snd e \<and> source_call (fst e) r \<noteq> None \<longrightarrow> fst e = s1)
         \<longrightarrow> snd (get (register_all regs ResourceResolver_init) r strict) = Inr (Some pth))"
proof -
  let ?rs = "register_all regs ResourceResolver_init"
  have src: "sources ?rs = regs" by (rule sources_registered)
  have a: "sorted_wrt (\<lambda>a b. snd a \<ge> snd b) (iter_entries (sources ?rs))"
    by (rule iter_entries_sorted)
  have b: "\<forall>q. filter (\<lambda>e. snd e = q) (iter_entries (sources ?rs)) = filter (\<lambda>e. snd e = q) regs"
    by (simp add: iter_entries_tier src)
  have c: "\<forall>before s rest pth.
         iter (sources ?rs) = before @ s # rest
         \<and> (\<forall>b \<in> set before. source_call b r = None) \<and> source_call s r = Some pth
         \<longrightarrow> get ?rs r strict =
               (Resolving # map (\<lambda>b. Trying (source_name b)) before
                  @ [Trying (source_name s), Found (source_name s) pth], Inr (Some pth))"
    using get_first [of ?rs _ _ _ r _ strict] by blast
  have win: "\<exists>e \<in> set regs. source_call (fst e) r = Some pth
                \<and> (\<forall>e' \<in> set regs. source_call (fst e') r \<noteq> None \<longrightarrow> snd e' \<le> snd e)"
    if g: "snd (get ?rs r strict) = Inr (Some pth)" for pth
  proof (cases "\<exists>e \<in> set (sources ?rs). source_call (fst e) r \<noteq> None")
    case False
    then have "\<forall>e \<in> set (sources ?rs). source_call (fst e) r = None" by simp
    from get_none [OF this, of strict] g show ?thesis by (simp split: if_splits)
  next
    case True
    from get_winner [OF True, of strict] obtain before s p rest pth' where
      sp: "iter_entries (sources ?rs) = before @ (s, p) # rest"
      and nb: "\<forall>b \<in> set before. source_call (fst b) r = None"
      and sm: "source_call s r = Some pth'"
      and le: "\<forall>e \<in> set rest. snd e \<le> p"
      and gt: "snd (get ?rs r strict) = Inr (Some pth')"
      by force
    from g gt have eq: "pth' = pth" by simp
    have "set (before @ (s, p) # rest) = set (sources ?rs)"
      using iter_entries_set [of "sources ?rs"] by (simp only: sp)
    then have mem: "set regs = set before \<union> {(s, p)} \<union> set rest"
      by (simp only: src) auto
    have "(s, p) \<in> set regs" using mem by simp
    moreover have "\<forall>e' \<in> set regs. source_call (fst e') r \<noteq> None \<longrightarrow> snd e' \<le> p"
      using mem nb le by auto
    ultimately show ?thesis using sm eq by force
  qed
  have d: "\<forall>pth. snd (get ?rs r strict) = Inr (Some pth)
         \<longrightarrow> (\<exists>e \<in> set regs. source_call (fst e) r = Some pth
                \<and> (\<forall>e' \<in> set regs. source_call (fst e') r \<noteq> None \<longrightarrow> snd e' \<le> snd e))"
    using win by blast
  have e: "snd (get ?rs r strict) = Inr (Some pth)"
    if h: "(s1, p1) \<in> set regs" "source_call s1 r = Some pth"
      "\<forall>e \<in> set regs. p1 \<le> snd e \<and> source_call (fst e) r \<noteq> None \<longrightarrow> fst e = s1"
    for s1 p1 pth
  proof -
    have True: "\<exists>e \<in> set (sources ?rs). source_call (fst e) r \<noteq> None"
      using h(1) h(2) by (force simp: src)
    from get_winner [OF True, of strict] obtain before s p rest pth' where
      sp: "iter_entries (sources ?rs) = before @ (s, p) # rest"
      and nb: "\<forall>b \<in> set before. source_call (fst b) r = None"
      and sm: "source_call s r = Some pth'"
      and le: "\<forall>e \<in> set rest. snd e \<le> p"
      and gt: "snd (get ?rs r strict) = Inr (Some pth')"
      by force
    have "set (before @ (s, p) # rest) = set (sources ?rs)"
      using iter_entries_set [of "sources ?rs"] by (simp only: sp)
    then have mem: "set regs = set before \<union> {(s, p)} \<union> set rest"
      by (simp only: src) auto
    have "(s1, p1) \<notin> set before" using nb h(2) by force
    then have "p1 \<le> p" using mem h(1) le by force
    moreover have "(s, p) \<in> set regs" using mem by simp
    ultimately have "s = s1" using h(3) sm by force
    then show ?thesis using gt sm h(2) by simp
  qed
  have e': "\<forall>s1 p1 s2 p2 pth.
         (s1, p1) \<in> set regs \<and> (s2, p2) \<in> set regs \<and> p2 < p1
         \<and> source_call s1 r = Some pth \<and> source_call s2 r \<noteq> None
         \<and> (\<forall>e \<in> set regs. p1 \<le> snd e \<and> source_call (fst e) r \<noteq> None \<longrightarrow> fst e = s1)
         \<longrightarrow> snd (get ?rs r strict) = Inr (Some pth)"
    using e by blast
  show ?thesis using a b c d e' by blast
qed

theorem get_returns_first_match_in_priority_order_witness:
  "iter (sources (register_all example_regs ResourceResolver_init)) = [src_B, src_A, src_C]
   \<and> get (register_all example_regs ResourceResolver_init) ''apk'' True =
       ([Resolving, Trying ''B'', Found ''B'' ''/b/app.apk''], Inr (Some ''/b/app.apk''))
   \<and> snd (get (register_all example_regs ResourceResolver_init) ''apk'' False)
       = Inr (Some ''/b/app.apk'')"
proof -
  let ?rs = "register_all example_regs ResourceResolver_init"
  note t = get_returns_first_match_in_priority_order [of example_regs "''apk''"]
  have it: "iter (sources ?rs) = [] @ src_B # [src_A, src_C]"
    by (simp add: sources_registered resolver_eval)
  have m: "(\<forall>b \<in> set []. source_call b ''apk'' = None) \<and> source_call src_B ''apk'' = Some ''/b/app.apk''"
    by (simp add: src_B_def)
  have "get ?rs ''apk'' True =
       (Resolving # map (\<lambda>b. Trying (source_name b)) []
          @ [Trying (source_name src_B), Found (source_name src_B) ''/b/app.apk''],
        Inr (Some ''/b/app.apk''))"
  proof -
    note c3 = conjunct1 [OF conjunct2 [OF conjunct2 [OF t [of True]]]]
    show ?thesis
      using c3 [rule_format, of "[]" src_B "[src_A, src_C]" "''/b/app.apk''"] it m
      by simp
  qed
  then have g1: "get ?rs ''apk'' True =
       ([Resolving, Trying ''B'', Found ''B'' ''/b/app.apk''], Inr (Some ''/b/app.apk''))"
    by (simp add: src_B_def)
  have h: "(src_B, 20) \<in> set example_regs \<and> (src_A, 10) \<in> set example_regs \<and> (10::int) < 20
      \<and> source_call src_B ''apk'' = Some ''/b/app.apk'' \<and> source_call src_A ''apk'' \<noteq> None
      \<and> (\<forall>e \<in> set example_regs. 20 \<le> snd e \<and> source_call (fst e) ''apk'' \<noteq> None \<longrightarrow> fst e = src_B)"
    by (simp add: example_regs_def src_A_def src_B_def src_C_def)
  have g2: "snd (get ?rs ''apk'' False) = Inr (Some ''/b/app.apk'')"
    using t [of False] h by blast
  show ?thesis using it g1 g2 by simp
qed

text \<open>
  C2. When no registered source matches the resource, \<open>get\<close> with \<open>strict\<close> true raises
  \<open>ResourceError\<close> (the ResourceNotFound condition), and \<open>get\<close> with \<open>strict\<close> false
  returns \<open>None\<close>, after trying every source; with \<open>strict\<close> false \<open>get\<close> raises for no
  resource at all.
\<close>

theorem get_no_match_strict_raises_else_none:
  "((\<forall>e \<in> set (sources rs). source_call (fst e) r = None) \<longrightarrow>
      snd (get rs r True) = Inl ResourceError
      \<and> get rs r False =
          (Resolving # map (\<lambda>s. Trying (source_name s)) (iter (sources rs)) @ [NotFound], Inr None))
   \<and> (\<forall>err. snd (get rs r' False) \<noteq> Inl err)"
proof -
  have "snd (get rs r' False) \<noteq> Inl err" for err
    by (simp add: get_def split: prod.splits option.splits)
  then show ?thesis using get_none [of rs r] by auto
qed

theorem get_no_match_strict_raises_else_none_witness:
  "snd (get (register_all example_regs ResourceResolver_init) ''jar'' True) = Inl ResourceError
   \<and> get (register_all example_regs ResourceResolver_init) ''jar'' False =
       ([Resolving, Trying ''B'', Trying ''A'', Trying ''C'', NotFound], Inr None)"
proof -
  let ?rs = "register_all example_regs ResourceResolver_init"
  have h: "\<forall>e \<in> set (sources ?rs). source_call (fst e) ''jar'' = None"
    by (simp add: sources_registered example_regs_def src_A_def src_B_def src_C_def)
  have it: "iter (sources ?rs) = [src_B, src_A, src_C]"
    by (simp add: sources_registered resolver_eval)
  show ?thesis
    using get_no_match_strict_raises_else_none [of ?rs "''jar''" "''jar''"] h
    by (simp add: it src_A_def src_B_def src_C_def)
qed

text \<open>
  C7. \<open>get_cacheable_apk_info\<close> returns \<open>None\<close> when the path is \<open>None\<close> or empty. For a
  path that names no file it does not return: the \<open>os.stat\<close> call raises
  \<open>FileNotFoundError\<close>.
\<close>

theorem get_cacheable_apk_info_missing_file_counterexample:
  "get_cacheable_apk_info example_env (Some ''/pkgs/missing.apk'') example_world
     = Inl FileNotFoundError"
  by (simp add: get_cacheable_apk_info_def os_stat_def example_world_def example_fs_def)

text \<open>
  C7, as the code has it. \<open>get_cacheable_apk_info\<close> returns \<open>None\<close> when the path is
  \<open>None\<close> or empty, and raises \<open>FileNotFoundError\<close> when the path names no file. For a
  path that names a file, with the cache created, the key is the path, a dash and the
  text of the modification time. When the synchronised cache holds the key, the cached
  metadata is returned. When it does not, the metadata is extracted from the file, stored
  under the key (in memory and in the persisted file, so that the next lookup of the key
  finds it) and returned; a failure of the extraction is raised.
\<close>

theorem get_cacheable_apk_info_hit_or_extract:
  "get_cacheable_apk_info E None w = Inr (None, w)
   \<and> get_cacheable_apk_info E (Some []) w = Inr (None, w)
   \<and> (p \<noteq> [] \<and> files (filesystem w) p = None \<longrightarrow>
        get_cacheable_apk_info E (Some p) w = Inl FileNotFoundError)
   \<and> (\<forall>f c. p \<noteq> [] \<and> files (filesystem w) p = Some f \<and> apk_info_cache w = Some c \<longrightarrow>
        (let apk_id = p @ ''-'' @ str_mtime E (fstat f);
             c1 = update_cache c (filesystem w)
         in case cache c1 apk_id of
              Some d \<Rightarrow>
                get_cacheable_apk_info E (Some p) w =
                  Inr (Some (from_pod d), w\<lparr>apk_info_cache := Some c1\<rparr>)
            | None \<Rightarrow>
                (case inspect E p of
                   Inl e \<Rightarrow> get_cacheable_apk_info E (Some p) w = Inl e
                 | Inr i \<Rightarrow>
                     (\<exists>c2 fs2.
                        get_cacheable_apk_info E (Some p) w =
                          Inr (Some i, \<lparr>apk_info_cache = Some c2, filesystem = fs2\<rparr>)
                        \<and> store c1 i apk_id True (filesystem w) = Inr (c2, fs2)
                        \<and> cache c2 apk_id = Some (to_pod i)
                        \<and> read_pod fs2 (cache_path c) apk_id = Some (to_pod i)
                        \<and> get_info c2 apk_id fs2 = (Some i, c2)))))"
proof -
  have a: "get_cacheable_apk_info E None w = Inr (None, w)"
          "get_cacheable_apk_info E (Some []) w = Inr (None, w)"
    by (simp_all add: get_cacheable_apk_info_def)
  have b: "p \<noteq> [] \<and> files (filesystem w) p = None \<longrightarrow>
        get_cacheable_apk_info E (Some p) w = Inl FileNotFoundError"
    by (simp add: get_cacheable_apk_info_unfold)
  have c: "(let apk_id = p @ ''-'' @ str_mtime E (fstat f);
             c1 = update_cache c (filesystem w)
         in case cache c1 apk_id of
              Some d \<Rightarrow>
                get_cacheable_apk_info E (Some p) w =
                  Inr (Some (from_pod d), w\<lparr>apk_info_cache := Some c1\<rparr>)
            | None \<Rightarrow>
                (case inspect E p of
                   Inl e \<Rightarrow> get_cacheable_apk_info E (Some p) w = Inl e
                 | Inr i \<Rightarrow>
                     (\<exists>c2 fs2.
                        get_cacheable_apk_info E (Some p) w =
                          Inr (Some i, \<lparr>apk_info_cache = Some c2, filesystem = fs2\<rparr>)
                        \<and> store c1 i apk_id True (filesystem w) = Inr (c2, fs2)
                        \<and> cache c2 apk_id = Some (to_pod i)
                        \<and> read_pod fs2 (cache_path c) apk_id = Some (to_pod i)
                        \<and> get_info c2 apk_id fs2 = (Some i, c2))))"
    if h: "p \<noteq> []" "files (filesystem w) p = Some f" "apk_info_cache w = Some c" for f c
  proof -
    let ?k = "p @ ''-'' @ str_mtime E (fstat f)"
    let ?c1 = "update_cache c (filesystem w)"
    note u = get_cacheable_apk_info_unfold [OF h(1), of E w]
    show ?thesis
    proof (cases "cache ?c1 ?k")
      case (Some d)
      then show ?thesis using h by (simp add: u Let_def)
    next
      case None
      show ?thesis
      proof (cases "inspect E p")
        case (Inl e)
        then show ?thesis using h None by (simp add: u Let_def)
      next
        case (Inr i)
        obtain c2 fs2 where st: "store ?c1 i ?k True (filesystem w) = Inr (c2, fs2)"
          using store_overwrite_succeeds by blast
        note sp = store_props [OF st]
        have r: "read_pod fs2 (cache_path c) ?k = Some (to_pod i)"
          using sp(3) sp(1) by (simp add: read_pod_def update_cache_path)
        have g: "get_info c2 ?k fs2 = (Some i, c2)"
          using sp(1) by (simp add: get_info_eq sp(6) from_pod_to_pod)
        have gc: "get_cacheable_apk_info E (Some p) w =
                    Inr (Some i, \<lparr>apk_info_cache = Some c2, filesystem = fs2\<rparr>)"
          using h None Inr st by (simp add: u)
        have ex: "\<exists>c2 fs2.
                        get_cacheable_apk_info E (Some p) w =
                          Inr (Some i, \<lparr>apk_info_cache = Some c2, filesystem = fs2\<rparr>)
                        \<and> store ?c1 i ?k True (filesystem w) = Inr (c2, fs2)
                        \<and> cache c2 ?k = Some (to_pod i)
                        \<and> read_pod fs2 (cache_path c) ?k = Some (to_pod i)
                        \<and> get_info c2 ?k fs2 = (Some i, c2)"
          using gc st sp(1) r g by blast
        show ?thesis
          unfolding Let_def None Inr option.case sum.case by (rule ex)
      qed
    qed
  qed
  show ?thesis using a b c by blast
qed

theorem get_cacheable_apk_info_hit_or_extract_witness:
  "get_cacheable_apk_info example_env None example_world = Inr (None, example_world)
   \<and> map_sum id fst (get_cacheable_apk_info example_env (Some ''/pkgs/app.apk'') example_world)
       = Inr (Some example_info)"
proof -
  let ?c = "ApkInfoCache_init ''/cache/apk_info_cache.json'' example_fs"
  have h: "''/pkgs/app.apk'' \<noteq> []
      \<and> files (filesystem example_world) ''/pkgs/app.apk'' = Some \<lparr>fstat = 7, fdata = Map.empty\<rparr>
      \<and> apk_info_cache example_world = Some ?c"
    by (simp add: example_world_def example_fs_def)
  have m: "cache (update_cache ?c (filesystem example_world))
             (''/pkgs/app.apk'' @ ''-'' @ str_mtime example_env (fstat \<lparr>fstat = 7, fdata = Map.empty\<rparr>))
           = None"
    by (simp add: cache_eval example_world_def)
  have i: "inspect example_env ''/pkgs/app.apk'' = Inr example_info"
    by (simp add: example_env_def)
  note t = get_cacheable_apk_info_hit_or_extract [of example_env example_world "''/pkgs/app.apk''"]
  have "get_cacheable_apk_info example_env None example_world = Inr (None, example_world)"
    using t by blast
  moreover have "map_sum id fst (get_cacheable_apk_info example_env (Some ''/pkgs/app.apk'') example_world)
       = Inr (Some example_info)"
    using conjunct2 [OF conjunct2 [OF conjunct2 [OF t]], rule_format, OF h] m i
    by (auto simp: Let_def)
  ultimately show ?thesis by simp
qed

text \<open>
  C9. After a metadata record has been stored under a key, reading the key gives an equal
  record, in the same cache instance and in an instance created afterwards over the same
  persisted file. Storing again under the key with \<open>overwrite\<close> true succeeds and the next
  read gives the new record. Storing under the key with \<open>overwrite\<close> false raises
  \<open>ValueError\<close> (the DuplicateEntry condition). A store with \<open>overwrite\<close> true never
  raises.
\<close>

theorem store_then_get_info_round_trip:
  "(store c i k ov fs = Inr (c2, fs2) \<longrightarrow>
      fst (get_info c2 k fs2) = Some i
      \<and> fst (get_info (ApkInfoCache_init (cache_path c) fs2) k fs2) = Some i
      \<and> store c2 j k False fs2 = Inl ValueError
      \<and> (\<exists>c3 fs3. store c2 j k True fs2 = Inr (c3, fs3)
            \<and> fst (get_info c3 k fs3) = Some j
            \<and> fst (get_info (ApkInfoCache_init (cache_path c) fs3) k fs3) = Some j))
   \<and> (\<exists>c2 fs2. store c i k True fs = Inr (c2, fs2))"
proof -
  have rt: "fst (get_info c2 k fs2) = Some i
      \<and> fst (get_info (ApkInfoCache_init (cache_path c) fs2) k fs2) = Some i
      \<and> store c2 j k False fs2 = Inl ValueError"
    if st: "store c i k ov fs = Inr (c2, fs2)" for c i k ov fs c2 fs2 j
  proof -
    note sp = store_props [OF st]
    have a: "fst (get_info c2 k fs2) = Some i"
      by (simp add: get_info_eq sp(6) sp(1) from_pod_to_pod)
    have init: "ApkInfoCache_init (cache_path c) fs2 =
          \<lparr>cache_path = cache_path c,
           last_modified = Some (fstat \<lparr>fstat = stat_after_write fs (writes fs), fdata = cache c2\<rparr>),
           cache = fdata \<lparr>fstat = stat_after_write fs (writes fs), fdata = cache c2\<rparr>\<rparr>"
      by (rule ApkInfoCache_init_reads [OF sp(3)])
    have u: "update_cache (ApkInfoCache_init (cache_path c) fs2) fs2 = ApkInfoCache_init (cache_path c) fs2"
      by (simp add: ApkInfoCache_init_def update_cache_idem)
    have b: "fst (get_info (ApkInfoCache_init (cache_path c) fs2) k fs2) = Some i"
      unfolding get_info_eq u by (simp add: init sp(1) from_pod_to_pod)
    have d: "store c2 j k False fs2 = Inl ValueError"
      by (simp add: store_eq sp(6) sp(1))
    show ?thesis using a b d by simp
  qed
  have ow: "\<exists>c3 fs3. store c2 j k True fs2 = Inr (c3, fs3)
            \<and> fst (get_info c3 k fs3) = Some j
            \<and> fst (get_info (ApkInfoCache_init (cache_path c) fs3) k fs3) = Some j"
    if st: "store c i k ov fs = Inr (c2, fs2)"
  proof -
    obtain c3 fs3 where st3: "store c2 j k True fs2 = Inr (c3, fs3)"
      using store_overwrite_succeeds by blast
    have p: "cache_path c2 = cache_path c" by (rule store_props(2) [OF st])
    from rt [OF st3, of j] show ?thesis using st3 by (simp add: p)
  qed
  show ?thesis using rt [of c i k ov fs c2 fs2 j] ow store_overwrite_succeeds [of c i k fs]
    by blast
qed

theorem store_then_get_info_round_trip_witness:
  "fst (get_info
         (fst (projr (store (ApkInfoCache_init ''/cache/c.json'' example_fs) example_info ''K'' False example_fs)))
         ''K''
         (snd (projr (store (ApkInfoCache_init ''/cache/c.json'' example_fs) example_info ''K'' False example_fs))))
     = Some example_info
   \<and> store
         (fst (projr (store (ApkInfoCache_init ''/cache/c.json'' example_fs) example_info ''K'' False example_fs)))
         uitest_info ''K'' False
         (snd (projr (store (ApkInfoCache_init ''/cache/c.json'' example_fs) example_info ''K'' False example_fs)))
     = Inl ValueError"
proof -
  let ?c = "ApkInfoCache_init ''/cache/c.json'' example_fs"
  obtain c2 fs2 where st: "store ?c example_info ''K'' False example_fs = Inr (c2, fs2)"
    by (simp add: cache_eval)
  show ?thesis
    using store_then_get_info_round_trip [of ?c example_info "''K''" False example_fs c2 fs2 uitest_info] st
    by simp
qed

text \<open>
  C6. For a candidate whose metadata is available: when the metadata reports no native
  code (\<open>None\<close> or an empty list) the ABI match accepts; otherwise, with \<open>exact_abi\<close> set,
  it accepts exactly when the first element of the requested ABI list is a member of the
  native-code list, at whatever position, and whatever the other requested elements are;
  and with \<open>exact_abi\<close> not set it accepts exactly when some requested ABI is a member of
  the native-code list. A requested element that is \<open>None\<close> is a member of no list of
  ABI names.
\<close>

theorem apk_abi_matches_native_code_cases:
  assumes "get_cacheable_apk_info E (Some p) w = Inr (Some info, w1)"
  shows
  "(native_code info = None \<or> native_code info = Some [] \<longrightarrow>
      apk_abi_matches E p abis exact w = Inr (True, w1))
   \<and> (\<forall>nc primary others.
         native_code info = Some nc \<and> nc \<noteq> [] \<and> exact
         \<and> list_or_string_abi abis = primary # others \<longrightarrow>
         apk_abi_matches E p abis exact w = Inr (\<exists>x \<in> set nc. primary = Some x, w1))
   \<and> (\<forall>nc. native_code info = Some nc \<and> nc \<noteq> [] \<and> \<not> exact \<longrightarrow>
         apk_abi_matches E p abis exact w =
           Inr (\<exists>x \<in> set nc. Some x \<in> set (list_or_string_abi abis), w1))"
proof -
  have m: "abi_in a nc = (\<exists>x \<in> set nc. a = Some x)" for a nc
    by (auto simp: abi_in_iff_member)
  show ?thesis
    using assms by (auto simp: apk_abi_matches_def Let_def abi_loop_iff_member m)
qed

theorem apk_abi_matches_native_code_cases_witness:
  "native_code example_info = Some [''armeabi-v7a'', ''arm64-v8a'']
   \<and> map_sum id fst (apk_abi_matches example_env ''/pkgs/app.apk''
       (Lst [Some ''arm64-v8a'', Some ''armeabi'']) True example_world) = Inr True
   \<and> map_sum id fst (apk_abi_matches example_env ''/pkgs/app.apk''
       (Lst [Some ''armeabi-v7a'', Some ''armeabi'']) True example_world) = Inr True
   \<and> map_sum id fst (apk_abi_matches example_env ''/pkgs/app.apk''
       (Lst [Some ''armeabi'', Some ''arm64-v8a'']) True example_world) = Inr False
   \<and> map_sum id fst (apk_abi_matches example_env ''/pkgs/app.apk''
       (Lst [None, Some ''arm64-v8a'']) True example_world) = Inr False
   \<and> map_sum id fst (apk_abi_matches example_env ''/pkgs/app.apk''
       (Lst [Some ''armeabi'', None, Some ''arm64-v8a'']) False example_world) = Inr True
   \<and> map_sum id fst (apk_abi_matches example_env ''/pkgs/app.apk''
       (Lst [Some ''armeabi'', Some ''x86'']) False example_world) = Inr False
   \<and> map_sum id fst (apk_abi_matches example_env ''/pkgs/app.apk''
       (Str ''arm64-v8a'') True example_world) = Inr True
   \<and> map_sum id fst (apk_abi_matches example_env ''/pkgs/uitest.apk''
       (Lst [Some ''armeabi'']) True example_world) = Inr True"
proof -
  obtain w1 where g: "get_cacheable_apk_info example_env (Some ''/pkgs/app.apk'') example_world
                      = Inr (Some example_info, w1)"
    by (simp add: world_eval)
  obtain w2 where h: "get_cacheable_apk_info example_env (Some ''/pkgs/uitest.apk'') example_world
                      = Inr (Some uitest_info, w2)"
    by (simp add: world_eval)
  note a = apk_abi_matches_native_code_cases [OF g]
  note b = apk_abi_matches_native_code_cases [OF h]
  show ?thesis
    using a [of "Lst [Some ''arm64-v8a'', Some ''armeabi'']" True]
          a [of "Lst [Some ''armeabi-v7a'', Some ''armeabi'']" True]
          a [of "Lst [Some ''armeabi'', Some ''arm64-v8a'']" True]
          a [of "Lst [None, Some ''arm64-v8a'']" True]
          a [of "Lst [Some ''armeabi'', None, Some ''arm64-v8a'']" False]
          a [of "Lst [Some ''armeabi'', Some ''x86'']" False]
          a [of "Str ''arm64-v8a''" True]
          b [of "Lst [Some ''armeabi'']" True]
    by (simp add: example_info_def uitest_info_def list_or_string_abi_def)
qed

text \<open>
  C3. \<open>ApkFile.match\<close> is not the conjunction of the supplied predicates alone: the
  UI-automation predicate is evaluated whether or not \<open>uiauto\<close> was passed. The resource
  built with no parameter at all rejects a package whose identifier holds the
  UI-automation marker.
\<close>

theorem match_no_parameter_rejects_uiauto_package_counterexample:
  "map_sum id fst (match example_env ApkFile_init ''/pkgs/uitest.apk'' example_world) = Inr False"
  by (simp add: match_def ApkFile_init_def matcher_eval world_eval)

text \<open>
  C3, as the code has it. When the metadata lookup for the path does not raise (and the
  path is not the cache file itself, and the name pattern, if one is supplied, can be
  evaluated), \<open>ApkFile.match\<close> returns the conjunction of the UI-automation predicate,
  which is always evaluated, with \<open>uiauto\<close> false when it was not passed, and of exactly
  those of the name, version, version range, package and ABI predicates whose parameter
  was supplied and is not empty; each of these five counts as true when its parameter is
  \<open>None\<close> or empty.
\<close>

theorem match_is_conjunction_of_uiauto_and_supplied_predicates:
  fixes E :: "('a::linorder, 'b) env_scheme"
  assumes g: "get_cacheable_apk_info E (Some p) w = Inr (info, w1)"
    and np: "\<forall>c. apk_info_cache w = Some c \<longrightarrow> cache_path c \<noteq> p"
    and nm: "truthy (variant self) \<longrightarrow> file_name_matches E p (or_empty (variant self)) = Inr n"
  shows "match E self p w =
     Inr ((truthy (variant self) \<longrightarrow> n)
          \<and> (truthy_sl (version self) \<longrightarrow> accepts (apk_version_matches E p (the (version self)) w))
          \<and> (truthy (max_version self) \<or> truthy (min_version self) \<longrightarrow>
               accepts (apk_version_matches_range E p (min_version self) (max_version self) w))
          \<and> accepts (uiauto_test_matches E p (uiauto self) w)
          \<and> (truthy (ApkFile.package self) \<longrightarrow>
               accepts (package_name_matches E p (or_empty (ApkFile.package self)) w))
          \<and> (supported_abi self \<noteq> None \<and> supported_abi self \<noteq> Some [] \<longrightarrow>
               accepts (apk_abi_matches E p (Lst (the (supported_abi self))) (exact_abi self) w)),
          w1)"
proof -
  from get_cacheable_apk_info_again [OF g np]
  have g1: "get_cacheable_apk_info E (Some p) w1 = Inr (info, w1)" by simp
  have u: "uiauto_test_matches E p x w = uiauto_test_matches E p x w1"
      "uiauto_test_matches E p x w1 =
         Inr (case info of None \<Rightarrow> False
              | Some i \<Rightarrow> x = is_substring ''com.arm.wa.uiauto'' (or_empty (ApkInfo.package i)), w1)" for x
    using g g1 by (auto simp: uiauto_test_matches_def split: option.splits)
  have v: "apk_version_matches E p x w = apk_version_matches E p x w1"
     "apk_version_matches E p x w1 = Inr (version_loop (tuple_of E) info (list_or_string x), w1)" for x
    using g g1 by (auto simp: apk_version_matches_def)
  have r: "apk_version_matches_range E p x y w = apk_version_matches_range E p x y w1"
     "apk_version_matches_range E p x y w1 =
        Inr (range_version_matching (tuple_of E)
               (case info of Some i \<Rightarrow> version_name i | None \<Rightarrow> Some []) x y, w1)" for x y
    using g g1 by (auto simp: apk_version_matches_range_def)
  have k: "package_name_matches E p x w = package_name_matches E p x w1"
     "package_name_matches E p x w1 =
        Inr (case info of None \<Rightarrow> False | Some i \<Rightarrow> ApkInfo.package i = Some x, w1)" for x
    using g g1 by (auto simp: package_name_matches_def split: option.splits)
  have a: "apk_abi_matches E p x y w = apk_abi_matches E p x y w1" for x y
    using g g1 by (auto simp: apk_abi_matches_def)
  have a1: "l \<noteq> [] \<Longrightarrow> \<exists>b. apk_abi_matches E p (Lst l) y w1 = Inr (b, w1)" for l y
    using g1 by (cases l) (auto simp: apk_abi_matches_def list_or_string_abi_def Let_def split: option.splits)
  show ?thesis
  proof (cases "supported_abi self")
    case None
    then show ?thesis
      using nm
      by (cases "version self")
         (auto simp: match_def u v r k accepts_def truthy_sl_def split: option.splits)
  next
    case (Some l)
    show ?thesis
    proof (cases "l = []")
      case True
      then show ?thesis
        using nm Some
        by (cases "version self")
           (auto simp: match_def u v r k accepts_def truthy_sl_def split: option.splits)
    next
      case False
      from a1 [OF False] obtain b where b: "apk_abi_matches E p (Lst l) (exact_abi self) w1 = Inr (b, w1)"
        by blast
      then show ?thesis
        using nm Some False
        by (cases "version self")
           (auto simp: match_def u v r k a accepts_def truthy_sl_def split: option.splits)
    qed
  qed
qed

theorem match_is_conjunction_of_uiauto_and_supplied_predicates_witness:
  "map_sum id fst
     (match example_env
        (ApkFile_init\<lparr>version := Some (Str ''2.5''), ApkFile.package := Some ''com.example.app'',
                      supported_abi := Some [Some ''arm64-v8a'']\<rparr>)
        ''/pkgs/app.apk'' example_world) = Inr True
   \<and> map_sum id fst
     (match example_env
        (ApkFile_init\<lparr>version := Some (Str ''2.6'')\<rparr>)
        ''/pkgs/app.apk'' example_world) = Inr False"
proof -
  obtain w1 where g: "get_cacheable_apk_info example_env (Some ''/pkgs/app.apk'') example_world
                      = Inr (Some example_info, w1)"
    by (simp add: world_eval)
  have np: "\<forall>c. apk_info_cache example_world = Some c \<longrightarrow> cache_path c \<noteq> ''/pkgs/app.apk''"
    by (simp add: example_world_def ApkInfoCache_init_def update_cache_path)
  let ?a = "ApkFile_init\<lparr>version := Some (Str ''2.5''), ApkFile.package := Some ''com.example.app'',
                      supported_abi := Some [Some ''arm64-v8a'']\<rparr>"
  let ?b = "ApkFile_init\<lparr>version := Some (Str ''2.6'')\<rparr>"
  have na: "truthy (variant ?a) \<longrightarrow> file_name_matches example_env ''/pkgs/app.apk'' (or_empty (variant ?a)) = Inr True"
    by (simp add: ApkFile_init_def truthy_def)
  have nb: "truthy (variant ?b) \<longrightarrow> file_name_matches example_env ''/pkgs/app.apk'' (or_empty (variant ?b)) = Inr True"
    by (simp add: ApkFile_init_def truthy_def)
  have e: "tuple_of example_env = version_tuple" by (simp add: example_env_def)
  show ?thesis
    using match_is_conjunction_of_uiauto_and_supplied_predicates [OF g np na]
          match_is_conjunction_of_uiauto_and_supplied_predicates [OF g np nb]
    by (simp add: ApkFile_init_def matcher_eval g e loose_version_matching_prefix vt_eval)
qed

text \<open>
  C8. The matchers are not total over all paths: for a path that names no file the
  metadata lookup raises \<open>FileNotFoundError\<close>, and so does the matcher.
\<close>

theorem uiauto_test_matches_missing_file_counterexample:
  "uiauto_test_matches example_env ''/pkgs/missing.apk'' False example_world
     = Inl FileNotFoundError"
  by (simp add: uiauto_test_matches_def get_cacheable_apk_info_def os_stat_def
                example_world_def example_fs_def)

text \<open>
  C8, as the code has it. For a candidate path that is empty, or that names a file the
  package inspection succeeds on (the cache being created), the version, version range,
  UI-automation and package matchers return a boolean for every parameter value; the ABI
  matcher does so unless \<open>exact_abi\<close> is set with an empty ABI list; the name matcher,
  which reads no metadata, does so for every path whenever the pattern occurs in the file
  name or is a pattern \<open>re.search\<close> accepts. A candidate without metadata or with a
  version name that is \<open>None\<close> or empty never matches a version range.
\<close>

theorem matchers_return_boolean_on_inspectable_path:
  fixes E :: "('a::linorder, 'b) env_scheme"
  assumes ok: "p = [] \<or> (files (filesystem w) p \<noteq> None \<and> apk_info_cache w \<noteq> None
                       \<and> (\<exists>i. inspect E p = Inr i))"
  shows
  "(\<exists>b w'. apk_version_matches E p v w = Inr (b, w'))
   \<and> (\<exists>b w'. apk_version_matches_range E p mn mx w = Inr (b, w'))
   \<and> (\<exists>b w'. uiauto_test_matches E p u w = Inr (b, w'))
   \<and> (\<exists>b w'. package_name_matches E p pkg w = Inr (b, w'))
   \<and> ((exact \<longrightarrow> list_or_string_abi abis \<noteq> []) \<longrightarrow>
        (\<exists>b w'. apk_abi_matches E p abis exact w = Inr (b, w')))
   \<and> (is_substring pat (basename q) \<or> (\<exists>b. re_search E pat (basename q) = Inr b) \<longrightarrow>
        (\<exists>b. file_name_matches E q pat = Inr b))
   \<and> (\<forall>info w'. get_cacheable_apk_info E (Some p) w = Inr (info, w')
         \<and> (info = None \<or> \<not> truthy (version_name (the info))) \<longrightarrow>
         apk_version_matches_range E p mn mx w = Inr (False, w'))"
proof -
  from get_cacheable_apk_info_succeeds [OF ok]
  obtain info w1 where g: "get_cacheable_apk_info E (Some p) w = Inr (info, w1)" by blast
  have a: "\<exists>b w'. apk_version_matches E p v w = Inr (b, w')"
    using g by (simp add: apk_version_matches_def)
  have b: "\<exists>b w'. apk_version_matches_range E p mn mx w = Inr (b, w')"
    using g by (simp add: apk_version_matches_range_def)
  have c: "\<exists>b w'. uiauto_test_matches E p u w = Inr (b, w')"
    using g by (cases info) (auto simp: uiauto_test_matches_def)
  have d: "\<exists>b w'. package_name_matches E p pkg w = Inr (b, w')"
    using g by (cases info) (auto simp: package_name_matches_def)
  have e: "(exact \<longrightarrow> list_or_string_abi abis \<noteq> []) \<longrightarrow>
        (\<exists>b w'. apk_abi_matches E p abis exact w = Inr (b, w'))"
    using g by (cases info; cases "list_or_string_abi abis")
               (auto simp: apk_abi_matches_def Let_def split: option.splits)
  have f: "is_substring pat (basename q) \<or> (\<exists>b. re_search E pat (basename q) = Inr b) \<longrightarrow>
        (\<exists>b. file_name_matches E q pat = Inr b)"
    by (auto simp: file_name_matches_def Let_def)
  have h: "\<forall>info w'. get_cacheable_apk_info E (Some p) w = Inr (info, w')
         \<and> (info = None \<or> \<not> truthy (version_name (the info))) \<longrightarrow>
         apk_version_matches_range E p mn mx w = Inr (False, w')"
  proof (intro allI impI)
    fix info w'
    assume "get_cacheable_apk_info E (Some p) w = Inr (info, w')
         \<and> (info = None \<or> \<not> truthy (version_name (the info)))"
    then show "apk_version_matches_range E p mn mx w = Inr (False, w')"
      by (cases info) (auto simp: apk_version_matches_range_def range_version_matching_def truthy_def)
  qed
  show ?thesis using a b c d e f h by blast
qed

theorem matchers_return_boolean_on_inspectable_path_witness:
  "map_sum id fst (apk_version_matches example_env ''/pkgs/app.apk'' (Lst [''9'', ''2.5''])
       example_world) = Inr True
   \<and> map_sum id fst (apk_version_matches_range example_env ''/pkgs/app.apk'' (Some ''3.0'') None
       example_world) = Inr False
   \<and> map_sum id fst (uiauto_test_matches example_env ''/pkgs/app.apk'' False example_world) = Inr True
   \<and> map_sum id fst (package_name_matches example_env ''/pkgs/app.apk'' ''com.other''
       example_world) = Inr False
   \<and> map_sum id fst (apk_abi_matches example_env ''/pkgs/app.apk'' (Str ''armeabi'') True
       example_world) = Inr False
   \<and> file_name_matches example_env ''/pkgs/app.apk'' ''app'' = Inr True
   \<and> map_sum id fst (uiauto_test_matches example_env [] True example_world) = Inr False"
proof -
  have ok: "''/pkgs/app.apk'' = [] \<or>
      (files (filesystem example_world) ''/pkgs/app.apk'' \<noteq> None
       \<and> apk_info_cache example_world \<noteq> None
       \<and> (\<exists>i. inspect example_env ''/pkgs/app.apk'' = Inr i))"
    by (simp add: example_world_def example_fs_def example_env_def)
  have ok2: "[] = [] \<or>
      (files (filesystem example_world) [] \<noteq> None
       \<and> apk_info_cache example_world \<noteq> None
       \<and> (\<exists>i. inspect example_env [] = Inr i))"
    by simp
  obtain w1 where g: "get_cacheable_apk_info example_env (Some ''/pkgs/app.apk'') example_world
                      = Inr (Some example_info, w1)"
    by (simp add: world_eval)
  have g0: "get_cacheable_apk_info example_env (Some []) example_world = Inr (None, example_world)"
    by (simp add: get_cacheable_apk_info_def)
  have e: "tuple_of example_env = version_tuple" by (simp add: example_env_def)
  show ?thesis
    using matchers_return_boolean_on_inspectable_path
            [OF ok, of "Lst [''9'', ''2.5'']" "Some ''3.0''" None False "''com.other''" True
                "Str ''armeabi''" "''app''" "''/pkgs/app.apk''"]
          matchers_return_boolean_on_inspectable_path
            [OF ok2, of "Lst [''9'', ''2.5'']" "Some ''3.0''" None True "''com.other''" True
                "Str ''armeabi''" "''app''" "''/pkgs/app.apk''"]
    by (simp add: matcher_eval g g0 e loose_version_matching_prefix vt_eval
                  range_version_matching_iff path_eval)
qed

end
